theory Spec2Isabelle
  imports Main "HOL-Library.Word" "HOL-Library.List_Lexorder" "HOL-Library.Char_ord"
begin

unbundle bit_operations_syntax

chapter \<open>tiflow: relay engine, row-change reduction, table actor, changefeed owner, DDL sink\<close>

text \<open>
  A shallow embedding of the parts of the repository that the specification's testable
  properties talk about. Go structs are records, tagged unions and enums are datatypes,
  \<open>uint64\<close> timestamps are \<open>64 word\<close>, \<open>uint32\<close> binlog offsets are \<open>32 word\<close>,
  an \<open>error\<close> return is a value of the datatype \<open>error\<close>, and every call that leaves
  the modelled code (the upstream reader, the relay writer, the metadata store, the
  downstream sink, the scheduler) is an explicit input of the function that makes the call.
  The \<open>failpoint.Inject\<close> hooks are test instrumentation that is compiled out of a
  production build; they are not modelled.
\<close>

section \<open>Errors\<close>

datatype error =
    ErrContextCanceled
  | ErrChecksumMismatch
  | ErrSyncClosed
  | ErrNeedSyncAgain
  | ErrBinlogPurged
  | ErrRotateEventWithDifferentServerID
  | ErrRelayUpdateGTID
  | ErrRelayWriterGetFileStat
  | ErrRelayWriterLatestPosGTFileSize int int
  | ErrRelayWriterFileOperate
  | ErrDDLEventIgnored
  | ErrNilPointerPanic
  | ErrUnknownBarrierPanic
  | ErrIndexOutOfRangePanic
  | ErrReduceIdentityKeyNotMatch
  | ErrExternal string

type_synonym Ts = "64 word"

section \<open>DDL sink (package \<open>owner\<close>, in \<open>cdc/processor/pipeline/puller.go\<close>)\<close>

record DDLEvent =
  CommitTs :: Ts
  Query :: string

text \<open>
  \<open>ddlSinkImpl\<close>: the two watermarks and the DDL channel. The channel is created by
  \<open>newDDLSink\<close> with capacity 1; its content is the list of events sent and not yet
  received, oldest first.
\<close>

record ddlSinkImpl =
  ddlFinishedTs :: Ts
  ddlSentTs :: Ts
  ddlCh :: "DDLEvent list"

definition ddlChCap :: nat where
  "ddlChCap = 1"

definition newDDLSink :: ddlSinkImpl where
  "newDDLSink = \<lparr>ddlFinishedTs = 0, ddlSentTs = 0, ddlCh = []\<rparr>"

text \<open>
  \<open>emitDDLEvent\<close> (lines 779-812). The \<open>select\<close> has three arms: \<open>ctx.Done()\<close>, the
  send on \<open>ddlCh\<close>, and \<open>default\<close>. Go takes \<open>default\<close> only when no other arm is
  ready and picks among several ready arms at random: \<open>ctxDone\<close> says whether the
  context is cancelled, \<open>pickDone\<close> is the random choice when both the cancellation and
  the send are ready. The result is the pair \<open>(done, err)\<close> and the sink afterwards.
\<close>

definition emitDDLEvent ::
  "bool \<Rightarrow> bool \<Rightarrow> ddlSinkImpl \<Rightarrow> DDLEvent \<Rightarrow> (bool \<times> error option) \<times> ddlSinkImpl" where
  "emitDDLEvent ctxDone pickDone s ddl =
     (if CommitTs ddl \<le> ddlFinishedTs s then ((True, None), s)
      else if CommitTs ddl \<le> ddlSentTs s then ((False, None), s)
      else
        (let sendReady = (length (ddlCh s) < ddlChCap) in
         if ctxDone \<and> (\<not> sendReady \<or> pickDone) then ((False, Some ErrContextCanceled), s)
         else if sendReady then
           ((False, None), s\<lparr>ddlCh := ddlCh s @ [ddl], ddlSentTs := CommitTs ddl\<rparr>)
         else ((False, None), s)))"

text \<open>
  \<open>emitDDLEvent\<close> runs on the owner's goroutine while the goroutine started by \<open>run\<close>
  receives from the channel and stores \<open>ddlFinishedTs\<close>. Between the two goroutines the
  call is not one step: it loads \<open>ddlFinishedTs\<close> atomically (line 780), then compares
  and enters the \<open>select\<close> (lines 781-811), and only after the send has succeeded
  (line 798) does it assign \<open>ddlSentTs\<close> (line 799). The owner is idle, or has loaded
  the watermark into its local variable, or has sent the event and not yet assigned.
\<close>

datatype ownerState = OwnerIdle | OwnerLoaded DDLEvent Ts | OwnerSent DDLEvent

text \<open>
  Lines 781-811 up to and including the send, with the local copy \<open>fin\<close> of
  \<open>ddlFinishedTs\<close>: every path but the successful send returns, the send leaves the
  assignment of line 799 to be done.
\<close>

definition emitDDLEvent_select ::
  "bool \<Rightarrow> bool \<Rightarrow> Ts \<Rightarrow> ddlSinkImpl \<Rightarrow> DDLEvent \<Rightarrow> ddlSinkImpl \<times> ownerState" where
  "emitDDLEvent_select ctxDone pickDone fin s ddl =
     (if CommitTs ddl \<le> fin then (s, OwnerIdle)
      else if CommitTs ddl \<le> ddlSentTs s then (s, OwnerIdle)
      else
        (let sendReady = (length (ddlCh s) < ddlChCap) in
         if ctxDone \<and> (\<not> sendReady \<or> pickDone) then (s, OwnerIdle)
         else if sendReady then (s\<lparr>ddlCh := ddlCh s @ [ddl]\<rparr>, OwnerSent ddl)
         else (s, OwnerIdle)))"

text \<open>Line 799, \<open>s.ddlSentTs = ddl.CommitTs\<close>.\<close>

definition emitDDLEvent_assign :: "ddlSinkImpl \<Rightarrow> DDLEvent \<Rightarrow> ddlSinkImpl" where
  "emitDDLEvent_assign s ddl = s\<lparr>ddlSentTs := CommitTs ddl\<rparr>"

text \<open>
  The background loop of \<open>run\<close> (lines 711-768), as far as it touches the DDL watermarks.
  The goroutine is either waiting in its \<open>select\<close> (\<open>Waiting\<close>), or it has received
  a DDL from the channel and is inside \<open>sink.EmitDDLEvent\<close> (\<open>Emitting\<close>), or it has
  returned (\<open>Exited\<close>). \<open>run_finish\<close> is the code after \<open>sink.EmitDDLEvent\<close>
  returns \<open>err\<close>: success and the ignorable error store the commit-ts into
  \<open>ddlFinishedTs\<close> and continue; any other error is thrown and the goroutine returns.
\<close>

datatype runState = Waiting | Emitting DDLEvent | Exited

definition run_finish :: "error option \<Rightarrow> ddlSinkImpl \<Rightarrow> DDLEvent \<Rightarrow> ddlSinkImpl \<times> runState" where
  "run_finish err s ddl =
     (if err = None \<or> err = Some ErrDDLEventIgnored
      then (s\<lparr>ddlFinishedTs := CommitTs ddl\<rparr>, Waiting)
      else (s, Exited))"

text \<open>
  The step relation of the sink, on the shared state and the positions of the two
  goroutines. The owner starts a call of \<open>emitDDLEvent\<close> with any event by loading
  \<open>ddlFinishedTs\<close>, goes through the comparisons and the \<open>select\<close>, and after a
  successful send assigns \<open>ddlSentTs\<close>. The background goroutine receives the head of
  the channel, finishes an emission, or exits (context cancelled, an error on \<open>errCh\<close>,
  a failed checkpoint emission). The steps of the two goroutines interleave freely.
\<close>

inductive ddlSink_step ::
  "ddlSinkImpl \<times> ownerState \<times> runState \<Rightarrow> ddlSinkImpl \<times> ownerState \<times> runState \<Rightarrow> bool" where
  step_load: "ddlSink_step (s, OwnerIdle, r) (s, OwnerLoaded ddl (ddlFinishedTs s), r)"
| step_select:
    "emitDDLEvent_select ctxDone pickDone fin s ddl = (s', ow') \<Longrightarrow>
       ddlSink_step (s, OwnerLoaded ddl fin, r) (s', ow', r)"
| step_assign: "ddlSink_step (s, OwnerSent ddl, r) (emitDDLEvent_assign s ddl, OwnerIdle, r)"
| step_recv:
    "ddlCh s = ddl # rest \<Longrightarrow>
       ddlSink_step (s, ow, Waiting) (s\<lparr>ddlCh := rest\<rparr>, ow, Emitting ddl)"
| step_finish:
    "run_finish res s ddl = (s', r') \<Longrightarrow> ddlSink_step (s, ow, Emitting ddl) (s', ow, r')"
| step_exit: "ddlSink_step (s, ow, Waiting) (s, ow, Exited)"

inductive ddlSink_reachable :: "ddlSinkImpl \<times> ownerState \<times> runState \<Rightarrow> bool" where
  reach_init: "ddlSink_reachable (newDDLSink, OwnerIdle, Waiting)"
| reach_step: "ddlSink_reachable st \<Longrightarrow> ddlSink_step st st' \<Longrightarrow> ddlSink_reachable st'"

text \<open>
  The invariant that carries the induction. The bound is \<open>ddlSentTs\<close>, or, between the
  send and the assignment, the commit-ts that is about to be assigned: the watermarks,
  the events in the channel and the event being emitted are not newer than the bound.
\<close>

definition ddlSink_bound :: "ddlSinkImpl \<Rightarrow> ownerState \<Rightarrow> Ts" where
  "ddlSink_bound s ow = (case ow of OwnerSent d \<Rightarrow> CommitTs d | _ \<Rightarrow> ddlSentTs s)"

definition ddlSink_inv :: "ddlSinkImpl \<times> ownerState \<times> runState \<Rightarrow> bool" where
  "ddlSink_inv st =
     (case st of (s, ow, r) \<Rightarrow>
        ddlSentTs s \<le> ddlSink_bound s ow
        \<and> ddlFinishedTs s \<le> ddlSink_bound s ow
        \<and> list_all (\<lambda>d. CommitTs d \<le> ddlSink_bound s ow) (ddlCh s)
        \<and> (\<forall>d. r = Emitting d \<longrightarrow> CommitTs d \<le> ddlSink_bound s ow))"

section \<open>Changefeed owner (\<open>cdc/owner/changefeed.go\<close>)\<close>

record ChangeFeedStatus =
  ResolvedTs :: Ts
  CheckpointTs :: Ts

text \<open>
  The barrier kinds of the owner. The Go type is an integer, and \<open>handleBarrier\<close> panics
  in its \<open>default\<close> branch on a value that is none of the three kinds: \<open>unknownBarrier\<close>
  stands for such a value.
\<close>

datatype barrierType = ddlJobBarrier | syncPointBarrier | finishBarrier | unknownBarrier

text \<open>What a tick does to its collaborators, in the order of the calls.\<close>

datatype ownerAction =
    ReleaseResources
  | EmitCheckpointTs Ts
  | BarrierUpdate barrierType Ts
  | PopFrontDDL
  | EmitSyncPoint Ts
  | MarkFinished
  | UpdateStatus Ts Ts
  | UpdateMetrics Ts Ts

text \<open>
  The answers of the collaborators of \<open>handleBarrier\<close> during one call:
  \<open>barriers.Min()\<close>; \<open>ddlPuller.FrontDDL()\<close> (the DDL resolved-ts and whether a job is
  at the front); the result \<open>(done, err)\<close> of \<open>asyncExecDDL\<close>; the resolved-ts that
  \<open>FrontDDL\<close> reports after \<open>PopFrontDDL\<close>; the result of \<open>sink.emitSyncPoint\<close>; and
  the timestamp one sync-point interval after the barrier (computed by the time oracle).
\<close>

record barrierEnv =
  barriersMin :: "barrierType \<times> Ts"
  frontDDL :: "Ts \<times> bool"
  asyncExecDDL :: "error + bool"
  frontDDLAfterPop :: Ts
  emitSyncPoint :: "error option"
  nextSyncPointTs :: Ts

text \<open>
  \<open>handleBarrier\<close> (lines 487-535). It reads \<open>c.state.Status.CheckpointTs\<close> without a
  nil check, so a nil status is a panic. On an error Go returns \<open>(0, err)\<close>; the model
  returns the error alone.
\<close>

definition handleBarrier ::
  "barrierEnv \<Rightarrow> ChangeFeedStatus option \<Rightarrow> (error + Ts) \<times> ownerAction list" where
  "handleBarrier env status =
     (case barriersMin env of (barrierTp, barrierTs) \<Rightarrow>
      (case status of
         None \<Rightarrow> (Inl ErrNilPointerPanic, [])
       | Some st \<Rightarrow>
          (let blocked = (barrierTs = CheckpointTs st \<and> barrierTs = ResolvedTs st) in
           (case barrierTp of
              ddlJobBarrier \<Rightarrow>
                (case frontDDL env of (ddlResolvedTs, hasJob) \<Rightarrow>
                   if \<not> hasJob \<or> ddlResolvedTs \<noteq> barrierTs then
                     (if ddlResolvedTs < barrierTs then (Inr barrierTs, [])
                      else (Inr barrierTs, [BarrierUpdate ddlJobBarrier ddlResolvedTs]))
                   else if \<not> blocked then (Inr barrierTs, [])
                   else
                     (case asyncExecDDL env of
                        Inl e \<Rightarrow> (Inl e, [])
                      | Inr done \<Rightarrow>
                          if \<not> done then (Inr barrierTs, [])
                          else (Inr barrierTs,
                                [PopFrontDDL, BarrierUpdate ddlJobBarrier (frontDDLAfterPop env)])))
            | syncPointBarrier \<Rightarrow>
                if \<not> blocked then (Inr barrierTs, [])
                else
                  (case emitSyncPoint env of
                     Some e \<Rightarrow> (Inl e, [EmitSyncPoint barrierTs])
                   | None \<Rightarrow>
                       (Inr barrierTs,
                        [EmitSyncPoint barrierTs, BarrierUpdate syncPointBarrier (nextSyncPointTs env)]))
            | finishBarrier \<Rightarrow>
                if \<not> blocked then (Inr barrierTs, []) else (Inr barrierTs, [MarkFinished])
            | unknownBarrier \<Rightarrow> (Inl ErrUnknownBarrierPanic, [])))))"

text \<open>
  \<open>updateStatus\<close> (lines 607-623): the patch applied to the changefeed status. A nil
  status is left alone; otherwise the two watermarks are overwritten, and the flag says
  whether anything changed (only then is the patch written to the metadata store).
\<close>

definition updateStatus ::
  "Ts \<Rightarrow> Ts \<Rightarrow> ChangeFeedStatus option \<Rightarrow> ChangeFeedStatus option \<times> bool" where
  "updateStatus checkpointTs resolvedTs status =
     (case status of
        None \<Rightarrow> (None, False)
      | Some st \<Rightarrow>
          (let (st1, changed1) =
                 (if ResolvedTs st \<noteq> resolvedTs then (st\<lparr>ResolvedTs := resolvedTs\<rparr>, True)
                  else (st, False));
               (st2, changed2) =
                 (if CheckpointTs st1 \<noteq> checkpointTs then (st1\<lparr>CheckpointTs := checkpointTs\<rparr>, True)
                  else (st1, changed1))
           in (Some st2, changed2)))"

text \<open>
  The answers of the collaborators of \<open>tick\<close> during one call, in the order of the calls:
  \<open>Info.GetCheckpointTs(Status)\<close>, \<open>checkStaleCheckpointTs\<close>,
  \<open>feedStateManager.ShouldRunning()\<close>, \<open>preflightCheck\<close>, \<open>initialize\<close>, the error
  waiting on \<open>errCh\<close> if there is one, the collaborators of \<open>handleBarrier\<close>, and
  \<open>scheduler.Tick\<close>. \<open>CheckpointCannotProceed\<close> is the scheduler's constant for
  "no new watermark".
\<close>

record tickEnv =
  getCheckpointTs :: Ts
  checkStaleCheckpointTs :: "error option"
  shouldRunning :: bool
  preflightCheck :: bool
  initialize :: "error option"
  errCh :: "error option"
  barrierEnv :: barrierEnv
  schedulerTick :: "error + Ts \<times> Ts"
  CheckpointCannotProceed :: Ts

text \<open>
  \<open>tick\<close> (lines 167-252): the error returned, the status after the tick and the calls
  made. \<open>UpdateStatus cp rs\<close> in the list is the call \<open>c.updateStatus(cp, rs)\<close>.
\<close>

definition tick ::
  "tickEnv \<Rightarrow> ChangeFeedStatus option \<Rightarrow> error option \<times> ChangeFeedStatus option \<times> ownerAction list" where
  "tick env status =
     (let checkpointTs = getCheckpointTs env in
      case checkStaleCheckpointTs env of
        Some e \<Rightarrow> (Some e, status, [])
      | None \<Rightarrow>
      if \<not> shouldRunning env then (None, status, [ReleaseResources])
      else if \<not> preflightCheck env then (None, status, [])
      else
      case initialize env of
        Some e \<Rightarrow> (Some e, status, [])
      | None \<Rightarrow>
      case errCh env of
        Some e \<Rightarrow> (Some e, status, [])
      | None \<Rightarrow>
      case handleBarrier (barrierEnv env) status of
        (Inl e, acts) \<Rightarrow> (Some e, status, EmitCheckpointTs checkpointTs # acts)
      | (Inr barrierTs, acts) \<Rightarrow>
      if barrierTs < checkpointTs then (None, status, EmitCheckpointTs checkpointTs # acts)
      else
      case schedulerTick env of
        Inl e \<Rightarrow> (Some e, status, EmitCheckpointTs checkpointTs # acts)
      | Inr (newCheckpointTs, newResolvedTs) \<Rightarrow>
      if newCheckpointTs \<noteq> CheckpointCannotProceed env then
        (let newResolvedTs' = (if newResolvedTs > barrierTs then barrierTs else newResolvedTs);
             newCheckpointTs' = (if newCheckpointTs > barrierTs then barrierTs else newCheckpointTs)
         in (None, fst (updateStatus newCheckpointTs' newResolvedTs' status),
             EmitCheckpointTs checkpointTs # acts
               @ [UpdateStatus newCheckpointTs' newResolvedTs',
                  UpdateMetrics newCheckpointTs' newResolvedTs']))
      else
        (case status of
           Some st \<Rightarrow>
             (None, status,
              EmitCheckpointTs checkpointTs # acts @ [UpdateMetrics (CheckpointTs st) (ResolvedTs st)])
         | None \<Rightarrow> (None, status, EmitCheckpointTs checkpointTs # acts)))"

section \<open>Relay: recovery of the latest relay log file (\<open>dm/relay/relay.go\<close>)\<close>

text \<open>
  \<open>mysql.Position\<close>: a binlog file name and a 32-bit offset. A GTID set is opaque to the
  relay; it is represented by its canonical string, and a nil set by \<open>None\<close>.
\<close>

record Position =
  Name :: string
  Pos :: "32 word"

type_synonym GTIDSet = string

record recoverResult =
  Truncated :: bool
  LatestPos :: Position
  LatestGTIDs :: "GTIDSet option"

text \<open>The zero value \<open>recoverResult{}\<close>.\<close>

definition recoverResult_zero :: recoverResult where
  "recoverResult_zero = \<lparr>Truncated = False, LatestPos = \<lparr>Name = [], Pos = 0\<rparr>, LatestGTIDs = None\<rparr>"

text \<open>
  What the operating system and the binlog scanner answer during one call of
  \<open>doRecovering\<close>: \<open>os.Stat\<close> (the file's size, an \<open>int64\<close>, or that the file does not
  exist, or another error); \<open>getTxnPosGTIDs\<close>, the scan of the file that yields the
  offset just after the last complete transaction (an \<open>int64\<close>) and the GTID set there;
  and whether \<open>os.OpenFile\<close> and \<open>f.Truncate\<close> succeed. The 64-bit signed sizes are
  integers: the function only compares them.
\<close>

datatype statResult = StatOk int | StatNotExist | StatError

record recoverEnv =
  osStat :: statResult
  getTxnPosGTIDs :: "error + int \<times> GTIDSet option"
  openFileOk :: bool
  truncateOk :: bool

text \<open>
  \<open>doRecovering\<close> (lines 435-485). The second component is \<open>Some n\<close> when the file has
  been truncated to \<open>n\<close> bytes and \<open>None\<close> when it has not been touched. The conversion
  \<open>uint32(latestPos)\<close> keeps the low 32 bits.
\<close>

definition doRecovering :: "recoverEnv \<Rightarrow> string \<Rightarrow> (error + recoverResult) \<times> int option" where
  "doRecovering env filename =
     (case osStat env of
        StatNotExist \<Rightarrow> (Inr recoverResult_zero, None)
      | StatError \<Rightarrow> (Inl ErrRelayWriterGetFileStat, None)
      | StatOk fsSize \<Rightarrow>
          if length filename = 0 then (Inr recoverResult_zero, None)
          else
            (case getTxnPosGTIDs env of
               Inl e \<Rightarrow> (Inl e, None)
             | Inr (latestPos, latestGTIDs) \<Rightarrow>
                 if fsSize = latestPos then
                   (Inr \<lparr>Truncated = False,
                         LatestPos = \<lparr>Name = filename, Pos = word_of_int latestPos\<rparr>,
                         LatestGTIDs = latestGTIDs\<rparr>, None)
                 else if fsSize < latestPos then
                   (Inl (ErrRelayWriterLatestPosGTFileSize latestPos fsSize), None)
                 else if \<not> openFileOk env then (Inl ErrRelayWriterFileOperate, None)
                 else if \<not> truncateOk env then (Inl ErrRelayWriterFileOperate, None)
                 else
                   (Inr \<lparr>Truncated = True,
                         LatestPos = \<lparr>Name = filename, Pos = word_of_int latestPos\<rparr>,
                         LatestGTIDs = latestGTIDs\<rparr>, Some latestPos)))"

section \<open>Relay: preprocessing of binlog events\<close>

text \<open>
  A binlog event of the replication library: the header fields the relay reads, and the
  parsed payload, one constructor per arm of the type switch in \<open>preprocessEvent\<close>
  (\<open>OtherEvent\<close> is every payload type the switch does not name, such as a
  format-description or a rows event). A rotate event carries the 64-bit position and the
  name of the next file; a query event its statement; query and XID events the GTID set
  of their transaction, which may be nil.
\<close>

record EventHeader =
  Timestamp :: "32 word"
  EventType :: "8 word"
  ServerID :: "32 word"
  EventSize :: "32 word"
  LogPos :: "32 word"
  Flags :: "16 word"

datatype Event =
    PreviousGTIDsEvent
  | MariadbGTIDListEvent
  | RotateEvent "64 word" string
  | QueryEvent string "GTIDSet option"
  | XIDEvent "GTIDSet option"
  | GenericEvent
  | OtherEvent

record BinlogEvent =
  Header :: EventHeader
  Event :: Event

text \<open>Constants of the MySQL replication protocol, as the replication library declares them.\<close>

definition LOG_EVENT_ARTIFICIAL_F :: "16 word" where
  "LOG_EVENT_ARTIFICIAL_F = 0x0020"

definition ROTATE_EVENT :: "8 word" where
  "ROTATE_EVENT = 4"

definition FORMAT_DESCRIPTION_EVENT :: "8 word" where
  "FORMAT_DESCRIPTION_EVENT = 15"

definition HEARTBEAT_EVENT :: "8 word" where
  "HEARTBEAT_EVENT = 27"

definition ignoreReasonHeartbeat :: string where
  "ignoreReasonHeartbeat = ''heartbeat event''"

definition ignoreReasonArtificialFlag :: string where
  "ignoreReasonArtificialFlag = ''artificial flag (0x0020) set''"

record preprocessResult =
  Ignore :: bool
  IgnoreReason :: string
  LogPos :: "32 word"
  NextLogName :: string
  GTIDSet :: "GTIDSet option"
  CanSaveGTID :: bool

text \<open>
  \<open>preprocessEvent\<close> (lines 501-544). \<open>CheckIsDDL\<close> is the SQL parser's verdict on a
  query string.
\<close>

definition preprocessEvent :: "(string \<Rightarrow> bool) \<Rightarrow> BinlogEvent \<Rightarrow> preprocessResult" where
  "preprocessEvent CheckIsDDL e =
     (let result = \<lparr>Ignore = False, IgnoreReason = [], LogPos = EventHeader.LogPos (Header e),
                    NextLogName = [], GTIDSet = None, CanSaveGTID = False\<rparr>
      in case Event e of
           PreviousGTIDsEvent \<Rightarrow> result\<lparr>CanSaveGTID := True\<rparr>
         | MariadbGTIDListEvent \<Rightarrow> result\<lparr>CanSaveGTID := True\<rparr>
         | RotateEvent position nextLogName \<Rightarrow>
             result\<lparr>LogPos := ucast position, NextLogName := nextLogName\<rparr>
         | QueryEvent query gset \<Rightarrow>
             if CheckIsDDL query then result\<lparr>GTIDSet := gset, CanSaveGTID := True\<rparr> else result
         | XIDEvent gset \<Rightarrow> result\<lparr>GTIDSet := gset, CanSaveGTID := True\<rparr>
         | GenericEvent \<Rightarrow>
             if EventType (Header e) = HEARTBEAT_EVENT
             then result\<lparr>Ignore := True, IgnoreReason := ignoreReasonHeartbeat\<rparr>
             else result
         | OtherEvent \<Rightarrow>
             if Flags (Header e) AND LOG_EVENT_ARTIFICIAL_F \<noteq> 0
             then result\<lparr>Ignore := True, IgnoreReason := ignoreReasonArtificialFlag\<rparr>
             else result)"

section \<open>Relay: the event loop \<open>handleEvents\<close>\<close>

text \<open>
  Two helpers that \<open>handleEvents\<close> calls are not among the sources:
  \<open>utils.IsFakeRotateEvent\<close>, a predicate on the event header, and \<open>isNewServer\<close>,
  which asks the upstream for its server UUID and says whether it is a new server. The
  loop takes the first as a parameter and the result of each call of the second as an
  input. The two definitions below are what the specification says of them; they
  instantiate the parameters in the concrete runs.
\<close>

text \<open>
  Modelled from the spec: \<open>utils.IsFakeRotateEvent\<close>. The specification describes a
  fake rotate as a rotate event whose header has the flag \<open>LOG_EVENT_ARTIFICIAL_F\<close> set.
\<close>

definition IsFakeRotateEvent_spec :: "EventHeader \<Rightarrow> bool" where
  "IsFakeRotateEvent_spec header = (Flags header AND LOG_EVENT_ARTIFICIAL_F \<noteq> 0)"

text \<open>
  Modelled from the spec: \<open>isNewServer\<close>. The specification says that on a fake rotate
  the engine verifies that the upstream UUID has not changed: the upstream's current
  \<open>server_uuid\<close> is queried (the query can fail) and compared with the UUID recorded in
  the metadata.
\<close>

definition isNewServer_spec :: "string \<Rightarrow> error + string \<Rightarrow> error + bool" where
  "isNewServer_spec prevUUID serverUUID =
     (case serverUUID of Inl e \<Rightarrow> Inl e | Inr uuid \<Rightarrow> Inr (uuid \<noteq> prevUUID))"

text \<open>The result of the relay writer's \<open>WriteEvent\<close>: whether it ignored the event, and why.\<close>

datatype WResult = WResult (wIgnore: bool) (wIgnoreReason: string)

text \<open>
  What the loop does to the metadata, the relay writer and the listeners, in order. A
  metadata call carries its result (\<open>None\<close> is success), a write carries the writer's.
\<close>

datatype relayAction =
    ASaveMeta Position GTIDSet "error option"
  | AFlushMeta "error option"
  | AWriteEvent BinlogEvent "error + WResult"
  | ANotify BinlogEvent
  | ASetActiveRelayLog string

text \<open>
  \<open>saveAndFlushMeta\<close> (lines 728-733), given the results of \<open>meta.Save\<close> and
  \<open>meta.Flush\<close>: the flush is attempted only after a successful save.
\<close>

definition saveAndFlushMeta ::
  "error option \<Rightarrow> error option \<Rightarrow> Position \<Rightarrow> GTIDSet \<Rightarrow> error option \<times> relayAction list" where
  "saveAndFlushMeta saveRes flushRes pos gset =
     (case saveRes of
        Some e \<Rightarrow> (Some e, [ASaveMeta pos gset (Some e)])
      | None \<Rightarrow> (flushRes, [ASaveMeta pos gset None, AFlushMeta flushRes]))"

text \<open>\<open>tryUpdateActiveRelayLog\<close> (lines 738-743).\<close>

definition tryUpdateActiveRelayLog :: "BinlogEvent \<Rightarrow> string \<Rightarrow> relayAction list" where
  "tryUpdateActiveRelayLog e filename =
     (if EventType (Header e) = FORMAT_DESCRIPTION_EVENT then [ASetActiveRelayLog filename] else [])"

text \<open>
  The fixed surroundings of a run of \<open>handleEvents\<close>: \<open>cfg.EnableGTID\<close>, the parser's
  \<open>CheckIsDDL\<close>, \<open>utils.IsFakeRotateEvent\<close>, and the GTID library's \<open>Set\<close>, which
  merges a GTID set into \<open>lastGTID\<close> or fails.
\<close>

record relayCfg =
  EnableGTID :: bool
  CheckIsDDL :: "string \<Rightarrow> bool"
  IsFakeRotateEvent :: "EventHeader \<Rightarrow> bool"
  gtidSet :: "GTIDSet \<Rightarrow> GTIDSet option \<Rightarrow> error + GTIDSet"

text \<open>
  What the outside answers during one iteration of the loop, one field per call site:
  \<open>reader2.GetEvent\<close>; \<open>isNewServer\<close>, called with the UUID that the metadata
  records; the metadata save and flush of the first event; \<open>writer.WriteEvent\<close>; the
  metadata save after a written event; the metadata save and flush after a real rotate.
\<close>

record iterEnv =
  GetEvent :: "error + BinlogEvent"
  isNewServer :: "error + bool"
  firstSave :: "error option"
  firstFlush :: "error option"
  WriteEvent :: "error + WResult"
  posSave :: "error option"
  rotateSave :: "error option"
  rotateFlush :: "error option"

text \<open>The local variables of \<open>handleEvents\<close> that live across iterations.\<close>

record loopState =
  lastPos :: Position
  lastGTID :: GTIDSet
  firstEvent :: bool
  eventIndex :: nat

datatype loopCtl = Continue | Return "error option"

text \<open>
  Step 3 and 4 of the loop body (lines 660-725): write the event, notify, update the
  position and the GTID set, save the metadata when the event closes a transaction (or
  always, without GTID), and save and flush it after a real rotate.
\<close>

definition handleEvents_write ::
  "relayCfg \<Rightarrow> iterEnv \<Rightarrow> BinlogEvent \<Rightarrow> preprocessResult \<Rightarrow> loopState
     \<Rightarrow> loopCtl \<times> loopState \<times> relayAction list" where
  "handleEvents_write cfg env e tResult st =
     (case WriteEvent env of
        Inl werr \<Rightarrow> (Return (Some werr), st, [AWriteEvent e (Inl werr)])
      | Inr wResult \<Rightarrow>
          if wIgnore wResult then
            (Continue, st,
             AWriteEvent e (Inr wResult) # tryUpdateActiveRelayLog e (Name (lastPos st)))
          else
            (let acts1 = AWriteEvent e (Inr wResult) # ANotify e
                           # tryUpdateActiveRelayLog e (Name (lastPos st));
                 needSavePos = CanSaveGTID tResult;
                 lastPos1 = (lastPos st)\<lparr>Pos := LogPos tResult\<rparr>
             in case gtidSet cfg (lastGTID st) (GTIDSet tResult) of
                  Inl gerr \<Rightarrow> (Return (Some ErrRelayUpdateGTID), st\<lparr>lastPos := lastPos1\<rparr>, acts1)
                | Inr lastGTID1 \<Rightarrow>
                    (let lastPos2 =
                           (if \<not> EnableGTID cfg \<and> EventType (Header e) \<noteq> ROTATE_EVENT
                            then lastPos1\<lparr>Pos := EventHeader.LogPos (Header e)\<rparr> else lastPos1);
                         needSavePos2 = (if \<not> EnableGTID cfg then True else needSavePos);
                         st2 = st\<lparr>lastPos := lastPos2, lastGTID := lastGTID1\<rparr>
                     in if needSavePos2 \<and> posSave env \<noteq> None then
                          (Return (posSave env), st2,
                           acts1 @ [ASaveMeta lastPos2 lastGTID1 (posSave env)])
                        else
                          (let acts2 = (if needSavePos2
                                        then acts1 @ [ASaveMeta lastPos2 lastGTID1 None] else acts1);
                               st3 = (if needSavePos2 then st2\<lparr>eventIndex := 0\<rparr>
                                      else st2\<lparr>eventIndex := eventIndex st2 + 1\<rparr>)
                           in if NextLogName tResult \<noteq> [] \<and> \<not> IsFakeRotateEvent cfg (Header e) then
                                (let lastPos3 = lastPos2\<lparr>Name := NextLogName tResult\<rparr>;
                                     st4 = st3\<lparr>lastPos := lastPos3\<rparr>
                                 in case saveAndFlushMeta (rotateSave env) (rotateFlush env)
                                           lastPos3 lastGTID1 of
                                      (Some e3, acts3) \<Rightarrow> (Return (Some e3), st4, acts2 @ acts3)
                                    | (None, acts3) \<Rightarrow> (Continue, st4, acts2 @ acts3))
                              else (Continue, st3, acts2)))))"

text \<open>
  One iteration of the loop (lines 570-725). A reader error ends the loop: a cancelled
  context returns nil, any other error is returned. Then the event is preprocessed, a
  rotate to a later file moves \<open>lastPos\<close>, an ignored event is skipped, a fake rotate is
  checked against the upstream's identity, the first event that comes this far saves and
  flushes the metadata, and the event is written.
\<close>

definition handleEvents_iter ::
  "relayCfg \<Rightarrow> loopState \<Rightarrow> iterEnv \<Rightarrow> loopCtl \<times> loopState \<times> relayAction list" where
  "handleEvents_iter cfg st env =
     (case GetEvent env of
        Inl rerr \<Rightarrow> (if rerr = ErrContextCanceled then (Return None, st, [])
                     else (Return (Some rerr), st, []))
      | Inr e \<Rightarrow>
          (let tResult = preprocessEvent (CheckIsDDL cfg) e;
               st1 = (if length (NextLogName tResult) > 0 \<and> NextLogName tResult > Name (lastPos st)
                      then st\<lparr>lastPos := \<lparr>Name = NextLogName tResult, Pos = LogPos tResult\<rparr>\<rparr>
                      else st)
           in if Ignore tResult then (Continue, st1, [])
              else
                (let isFakeRotate =
                       ((case Event e of RotateEvent p n \<Rightarrow> True | _ \<Rightarrow> False)
                        \<and> IsFakeRotateEvent cfg (Header e));
                     isNew = (if isFakeRotate then isNewServer env else Inr False)
                 in case isNew of
                      Inl err2 \<Rightarrow> (Return (Some err2), st1, [])
                    | Inr True \<Rightarrow> (Return (Some ErrRotateEventWithDifferentServerID), st1, [])
                    | Inr False \<Rightarrow>
                        if firstEvent st1 then
                          (case saveAndFlushMeta (firstSave env) (firstFlush env)
                                  (lastPos st1) (lastGTID st1) of
                             (Some err2, acts) \<Rightarrow> (Return (Some err2), st1\<lparr>firstEvent := False\<rparr>, acts)
                           | (None, acts) \<Rightarrow>
                               (case handleEvents_write cfg env e tResult (st1\<lparr>firstEvent := False\<rparr>) of
                                  (ctl, st2, acts2) \<Rightarrow> (ctl, st2, acts @ acts2)))
                        else handleEvents_write cfg env e tResult st1)))"

text \<open>
  The loop over the answers of the outside, one per iteration. The loop has no exit of
  its own: it runs until an iteration returns. \<open>None\<close> as the first component says that
  the loop has not returned after the given iterations (it is waiting for the next
  event); \<open>Some r\<close> that \<open>handleEvents\<close> has returned \<open>r\<close>.
\<close>

fun handleEvents_loop ::
  "relayCfg \<Rightarrow> loopState \<Rightarrow> iterEnv list \<Rightarrow> error option option \<times> loopState \<times> relayAction list" where
  "handleEvents_loop cfg st [] = (None, st, [])"
| "handleEvents_loop cfg st (env # envs) =
     (case handleEvents_iter cfg st env of
        (Return r, st1, acts) \<Rightarrow> (Some r, st1, acts)
      | (Continue, st1, acts) \<Rightarrow>
          (case handleEvents_loop cfg st1 envs of
             (r, st2, acts2) \<Rightarrow> (r, st2, acts @ acts2)))"

text \<open>
  \<open>handleEvents\<close> (lines 551-726): the position and the GTID set come from the metadata;
  a nil GTID set is replaced by the empty set of the flavor (\<open>parseEmpty\<close> is the result
  of \<open>gtid.ParserGTID(flavor, "")\<close>), and a failure to build it is returned at once.
\<close>

definition handleEvents ::
  "relayCfg \<Rightarrow> Position \<Rightarrow> GTIDSet option \<Rightarrow> error + GTIDSet \<Rightarrow> iterEnv list
     \<Rightarrow> error option option \<times> relayAction list" where
  "handleEvents cfg metaPos metaGTID parseEmpty envs =
     (case (case metaGTID of Some g \<Rightarrow> Inr g | None \<Rightarrow> parseEmpty) of
        Inl e \<Rightarrow> (Some (Some e), [])
      | Inr g \<Rightarrow>
          (case handleEvents_loop cfg
                  \<lparr>lastPos = metaPos, lastGTID = g, firstEvent = True, eventIndex = 0\<rparr> envs of
             (r, st, acts) \<Rightarrow> (r, acts)))"

section \<open>Row changes: identity key and reduction (package \<open>sqlmodel\<close>, in \<open>dm/relay/relay.go\<close>)\<close>

text \<open>
  A column value (\<open>interface{}\<close>): SQL NULL, an integer or a string. A row change has
  its values before and after the change (each a slice that may be nil), its type, and
  the \<open>UniqueNotNullIdx\<close> of its where-handle: the column offsets of the chosen unique
  index whose columns are all NOT NULL, or nil when the table has none.
\<close>

datatype val = VNil | VInt int | VStr string

datatype RowChangeType = RowChangeNull | RowChangeInsert | RowChangeUpdate | RowChangeDelete

record RowChange =
  preValues :: "val list option"
  postValues :: "val list option"
  tp :: RowChangeType
  UniqueNotNullIdx :: "nat list option"

text \<open>Decimal digits of a natural number, and \<open>fmt\<close>'s \<open>%v\<close> on a column value.\<close>

fun decimal :: "nat \<Rightarrow> string" where
  "decimal n =
     (if n < 10 then [''0123456789'' ! n]
      else decimal (n div 10) @ [''0123456789'' ! (n mod 10)])"

definition fmt_v :: "val \<Rightarrow> string" where
  "fmt_v v =
     (case v of
        VNil \<Rightarrow> ''<nil>''
      | VInt i \<Rightarrow> (if i < 0 then CHR ''-'' # decimal (nat (- i)) else decimal (nat i))
      | VStr s \<Rightarrow> s)"

text \<open>
  The values at the index columns: \<open>values[column.Offset]\<close> for each column, a panic
  when an offset is out of range. A nil slice contributes nothing.
\<close>

fun valuesAt :: "val list \<Rightarrow> nat list \<Rightarrow> val list option" where
  "valuesAt vs [] = Some []"
| "valuesAt vs (c # cs) =
     (if c < length vs
      then (case valuesAt vs cs of None \<Rightarrow> None | Some r \<Rightarrow> Some (vs ! c # r))
      else None)"

text \<open>
  \<open>IdentityValues\<close> (lines 1250-1270): without an index, all the values; with one, the
  values at its columns. \<open>None\<close> is the out-of-range panic. The callers use only the
  length and the elements of the two slices, so a nil slice is returned as the empty list.
\<close>

definition IdentityValues :: "RowChange \<Rightarrow> (val list \<times> val list) option" where
  "IdentityValues r =
     (case UniqueNotNullIdx r of
        None \<Rightarrow>
          Some ((case preValues r of None \<Rightarrow> [] | Some vs \<Rightarrow> vs),
                (case postValues r of None \<Rightarrow> [] | Some vs \<Rightarrow> vs))
      | Some columns \<Rightarrow>
          (case (case preValues r of None \<Rightarrow> Some [] | Some vs \<Rightarrow> valuesAt vs columns) of
             None \<Rightarrow> None
           | Some pre \<Rightarrow>
               (case (case postValues r of None \<Rightarrow> Some [] | Some vs \<Rightarrow> valuesAt vs columns) of
                  None \<Rightarrow> None
                | Some post \<Rightarrow> Some (pre, post))))"

text \<open>
  \<open>genKey\<close> (lines 1293-1303): the values printed with \<open>%v\<close>, a dot before every value
  but the first. \<open>genKey_from i\<close> is the loop from index \<open>i\<close> on.
\<close>

fun genKey_from :: "nat \<Rightarrow> val list \<Rightarrow> string" where
  "genKey_from i [] = []"
| "genKey_from i (v # vs) = (if i \<noteq> 0 then ''.'' else []) @ fmt_v v @ genKey_from (Suc i) vs"

definition genKey :: "val list \<Rightarrow> string" where
  "genKey vs = genKey_from 0 vs"

text \<open>\<open>IdentityKey\<close> (lines 1307-1313).\<close>

definition IdentityKey :: "RowChange \<Rightarrow> string option" where
  "IdentityKey r =
     (case IdentityValues r of
        None \<Rightarrow> None
      | Some (pre, post) \<Rightarrow> Some (if length pre \<noteq> 0 then genKey pre else genKey post))"

text \<open>
  \<open>Reduce\<close> (lines 1318-1333) merges the earlier change \<open>preRowChange\<close> into the
  receiver \<open>r\<close>; the result is the receiver afterwards. Keys that differ are a
  \<open>DPanic\<close> (a panic in development, a logged error and an unchanged receiver in
  production): the error \<open>ErrReduceIdentityKeyNotMatch\<close>. \<open>calculateType\<close>, which
  recomputes the type of the receiver from its values, is not among the sources and is a
  parameter.
\<close>

definition Reduce ::
  "(RowChange \<Rightarrow> RowChange) \<Rightarrow> RowChange \<Rightarrow> RowChange \<Rightarrow> error + RowChange" where
  "Reduce calculateType r preRowChange =
     (case (IdentityKey r, IdentityKey preRowChange) of
        (Some curID, Some preID) \<Rightarrow>
          if curID \<noteq> preID then Inl ErrReduceIdentityKeyNotMatch
          else if tp r = RowChangeDelete \<and> tp preRowChange = RowChangeInsert then Inr r
          else Inr (calculateType (r\<lparr>preValues := preValues preRowChange\<rparr>))
      | _ \<Rightarrow> Inl ErrIndexOutOfRangePanic)"

section \<open>Table actor (package \<open>pipeline\<close>, in \<open>cdc/processor/pipeline/puller.go\<close>)\<close>

text \<open>
  A mailbox message: its type and, for a barrier, the barrier timestamp. \<open>Poll\<close> acts on
  stop, tick and barrier messages; \<open>TypeUnknown\<close> is any other type.
\<close>

datatype messageType = TypeUnknown | TypeTick | TypeStop | TypeBarrier

record Message =
  Tp :: messageType
  BarrierTs :: Ts

text \<open>
  A pipeline node: the stashed event, and its fetcher and sender. Fetchers and senders
  act on the rest of the pipeline (the channels between the nodes, the sorter, the sink
  node), whose state has the type \<open>'w\<close>: \<open>TryGetMessage\<close> yields an event or nothing,
  \<open>TrySendMessage\<close> says whether the event was taken.
\<close>

record ('m, 'w) node =
  eventStash :: "'m option"
  messageFetcher :: "'w \<Rightarrow> 'm option \<times> 'w"
  messageSender :: "'w \<Rightarrow> 'm \<Rightarrow> bool \<times> 'w"

text \<open>
  \<open>tryRun\<close> (lines 338-353): fetch into the empty stash, send the stashed event, repeat
  until there is nothing to fetch or the sender refuses. The loop has no bound of its
  own; \<open>None\<close> is a run that does not return.
\<close>

partial_function (option) tryRun :: "('m, 'w) node \<Rightarrow> 'w \<Rightarrow> (('m, 'w) node \<times> 'w) option" where
  "tryRun n w =
     (case (if eventStash n = None then messageFetcher n w else (eventStash n, w)) of
        (None, w1) \<Rightarrow> Some (n\<lparr>eventStash := None\<rparr>, w1)
      | (Some m, w1) \<Rightarrow>
          (case messageSender n w1 m of
             (sent, w2) \<Rightarrow>
               if sent then tryRun (n\<lparr>eventStash := None\<rparr>) w2
               else Some (n\<lparr>eventStash := Some m\<rparr>, w2)))"

text \<open>The pass over the nodes, \<open>for _, n := range t.nodes { n.tryRun(ctx) }\<close>.\<close>

fun tryRun_nodes :: "('m, 'w) node list \<Rightarrow> 'w \<Rightarrow> (('m, 'w) node list \<times> 'w) option" where
  "tryRun_nodes [] w = Some ([], w)"
| "tryRun_nodes (n # ns) w =
     (case tryRun n w of
        None \<Rightarrow> None
      | Some (n1, w1) \<Rightarrow>
          (case tryRun_nodes ns w1 of
             None \<Rightarrow> None
           | Some (ns1, w2) \<Rightarrow> Some (n1 # ns1, w2)))"

text \<open>
  The table actor: the flags and the error of the Go struct, whether \<open>cancel\<close> has been
  called, the errors handed to \<open>reportErr\<close> by the actor, the nodes, and the rest of
  the pipeline.
\<close>

record ('m, 'w) tableActor =
  stopped :: bool
  err :: "error option"
  cancelled :: bool
  reported :: "error list"
  nodes :: "('m, 'w) node list"
  pipeline :: 'w

text \<open>\<open>stop\<close> (lines 420-429) and \<open>checkError\<close> (lines 431-436).\<close>

definition stop :: "error option \<Rightarrow> ('m, 'w) tableActor \<Rightarrow> ('m, 'w) tableActor" where
  "stop e t = (if stopped t then t else t\<lparr>stopped := True, err := e, cancelled := True\<rparr>)"

definition checkError :: "('m, 'w) tableActor \<Rightarrow> ('m, 'w) tableActor" where
  "checkError t =
     (case err t of None \<Rightarrow> t | Some e \<Rightarrow> t\<lparr>reported := reported t @ [e], err := None\<rparr>)"

text \<open>
  The \<open>switch\<close> of \<open>Poll\<close> (lines 238-248) on one message. \<open>HandleMessages\<close> is the sink
  node's handler of a barrier message, acting on the pipeline.
\<close>

definition Poll_switch ::
  "('w \<Rightarrow> Message \<Rightarrow> error option \<times> 'w) \<Rightarrow> ('m, 'w) tableActor \<Rightarrow> Message \<Rightarrow> ('m, 'w) tableActor" where
  "Poll_switch HandleMessages t msg =
     (case Tp msg of
        TypeStop \<Rightarrow> stop None t
      | TypeTick \<Rightarrow> t
      | TypeBarrier \<Rightarrow>
          (case HandleMessages (pipeline t) msg of
             (None, w) \<Rightarrow> t\<lparr>pipeline := w\<rparr>
           | (Some e, w) \<Rightarrow> stop (Some e) (t\<lparr>pipeline := w\<rparr>))
      | TypeUnknown \<Rightarrow> t)"

text \<open>
  The loop of \<open>Poll\<close> (lines 232-254): it leaves the batch as soon as the actor is
  stopped; otherwise it dispatches the message and runs every node.
\<close>

fun Poll_loop ::
  "('w \<Rightarrow> Message \<Rightarrow> error option \<times> 'w) \<Rightarrow> ('m, 'w) tableActor \<Rightarrow> Message list
     \<Rightarrow> ('m, 'w) tableActor option" where
  "Poll_loop HandleMessages t [] = Some t"
| "Poll_loop HandleMessages t (msg # msgs) =
     (if stopped t then Some t
      else
        (let t1 = Poll_switch HandleMessages t msg in
         case tryRun_nodes (nodes t1) (pipeline t1) of
           None \<Rightarrow> None
         | Some (ns, w) \<Rightarrow> Poll_loop HandleMessages (t1\<lparr>nodes := ns, pipeline := w\<rparr>) msgs))"

text \<open>\<open>Poll\<close> (lines 231-258): the actor afterwards and the returned flag.\<close>

definition Poll ::
  "('w \<Rightarrow> Message \<Rightarrow> error option \<times> 'w) \<Rightarrow> ('m, 'w) tableActor \<Rightarrow> Message list
     \<Rightarrow> (('m, 'w) tableActor \<times> bool) option" where
  "Poll HandleMessages t msgs =
     (case Poll_loop HandleMessages t msgs of
        None \<Rightarrow> None
      | Some t1 \<Rightarrow> (let t2 = checkError t1 in Some (t2, \<not> stopped t2)))"

text \<open>
  \<open>ChannelMessageFetcher.TryGetMessage\<close> (lines 315-323) on a channel whose content is
  a list, oldest message first: a non-blocking receive.
\<close>

definition ChannelMessageFetcher_TryGetMessage :: "'m list \<Rightarrow> 'm option \<times> 'm list" where
  "ChannelMessageFetcher_TryGetMessage OutputChan =
     (case OutputChan of [] \<Rightarrow> (None, []) | msg # rest \<Rightarrow> (Some msg, rest))"

text \<open>
  Every node of the list returns from \<open>tryRun\<close>, whatever its stash and the state of
  the pipeline.
\<close>

definition nodes_return :: "('m, 'w) node list \<Rightarrow> bool" where
  "nodes_return ns = list_all (\<lambda>n. \<forall>s w. tryRun (n\<lparr>eventStash := s\<rparr>) w \<noteq> None) ns"

text \<open>
  Two properties of a list of calls: it contains no call of \<open>WriteEvent\<close>; it begins
  with a successful \<open>meta.Save\<close> followed by a successful \<open>meta.Flush\<close>.
\<close>

definition no_write :: "relayAction list \<Rightarrow> bool" where
  "no_write acts = list_all (\<lambda>a. case a of AWriteEvent e wr \<Rightarrow> False | _ \<Rightarrow> True) acts"

definition starts_flushed :: "relayAction list \<Rightarrow> bool" where
  "starts_flushed acts = (\<exists>pos gset rest. acts = ASaveMeta pos gset None # AFlushMeta None # rest)"

section \<open>Concrete scenarios\<close>

text \<open>A DDL committed at 130.\<close>

definition ex_ddl :: DDLEvent where
  "ex_ddl = \<lparr>CommitTs = 130, Query = ''create table u(a int)''\<rparr>"

definition ex_status :: ChangeFeedStatus where
  "ex_status = \<lparr>ResolvedTs = 100, CheckpointTs = 100\<rparr>"

text \<open>A tick on which the finish barrier at 200 is the minimum and the scheduler reports (150, 250).\<close>

definition ex_tickEnv_advance :: tickEnv where
  "ex_tickEnv_advance =
     \<lparr>getCheckpointTs = 100, checkStaleCheckpointTs = None, shouldRunning = True,
      preflightCheck = True, initialize = None, errCh = None,
      barrierEnv = \<lparr>barriersMin = (finishBarrier, 200), frontDDL = (200, False),
                    asyncExecDDL = Inr False, frontDDLAfterPop = 200, emitSyncPoint = None,
                    nextSyncPointTs = 300\<rparr>,
      schedulerTick = Inr (150, 250), CheckpointCannotProceed = 0\<rparr>"

text \<open>
  The first tick after \<open>initialize\<close> at checkpoint 100: \<open>initialize\<close> has set the DDL-job
  barrier to \<open>checkpointTs - 1 = 99\<close>, and the DDL puller, started from 99, has no job yet.
\<close>

definition ex_tickEnv_first :: tickEnv where
  "ex_tickEnv_first =
     \<lparr>getCheckpointTs = 100, checkStaleCheckpointTs = None, shouldRunning = True,
      preflightCheck = True, initialize = None, errCh = None,
      barrierEnv = \<lparr>barriersMin = (ddlJobBarrier, 99), frontDDL = (99, False),
                    asyncExecDDL = Inr False, frontDDLAfterPop = 99, emitSyncPoint = None,
                    nextSyncPointTs = 300\<rparr>,
      schedulerTick = Inr (100, 100), CheckpointCannotProceed = 0\<rparr>"

text \<open>
  Scenario 2 of the specification: the file is 1024 bytes long and its last complete
  transaction ends at 768. Then a file whose size equals that offset, a file that is
  shorter than the offset reported for it, and a file of more than 4 GiB whose last
  complete transaction ends at its end, \<open>2^32 + 4\<close>.
\<close>

definition ex_recoverEnv_crash :: recoverEnv where
  "ex_recoverEnv_crash =
     \<lparr>osStat = StatOk 1024, getTxnPosGTIDs = Inr (768, None), openFileOk = True, truncateOk = True\<rparr>"

definition ex_recoverEnv_clean :: recoverEnv where
  "ex_recoverEnv_clean =
     \<lparr>osStat = StatOk 768, getTxnPosGTIDs = Inr (768, None), openFileOk = True, truncateOk = True\<rparr>"

definition ex_recoverEnv_short :: recoverEnv where
  "ex_recoverEnv_short =
     \<lparr>osStat = StatOk 512, getTxnPosGTIDs = Inr (768, None), openFileOk = True, truncateOk = True\<rparr>"

definition ex_recoverEnv_large :: recoverEnv where
  "ex_recoverEnv_large =
     \<lparr>osStat = StatOk 4294967300, getTxnPosGTIDs = Inr (4294967300, None),
      openFileOk = True, truncateOk = True\<rparr>"

text \<open>Events whose header has the artificial flag set: an XID event and a rows event.\<close>

definition ex_header_artificial :: EventHeader where
  "ex_header_artificial =
     \<lparr>Timestamp = 1, EventType = 16, ServerID = 1, EventSize = 31,
      EventHeader.LogPos = 512, Flags = 0x0020\<rparr>"

definition ex_xid_artificial :: BinlogEvent where
  "ex_xid_artificial = \<lparr>Header = ex_header_artificial, Event = XIDEvent None\<rparr>"

definition ex_other_artificial :: BinlogEvent where
  "ex_other_artificial = \<lparr>Header = ex_header_artificial\<lparr>EventType := 30\<rparr>, Event = OtherEvent\<rparr>"

text \<open>
  Scenario 5 of the specification on a table whose primary key is its first column:
  \<open>INSERT(id=1, v='a')\<close> followed by \<open>DELETE(id=1)\<close>.
\<close>

definition ex_insert :: RowChange where
  "ex_insert =
     \<lparr>preValues = None, postValues = Some [VInt 1, VStr ''a''], tp = RowChangeInsert,
      UniqueNotNullIdx = Some [0]\<rparr>"

definition ex_delete :: RowChange where
  "ex_delete =
     \<lparr>preValues = Some [VInt 1, VStr ''a''], postValues = None, tp = RowChangeDelete,
      UniqueNotNullIdx = Some [0]\<rparr>"

text \<open>
  A table with the columns \<open>(k1, k2, v)\<close> whose unique index is \<open>(k1, k2)\<close>, and three
  of its rows: \<open>('a.b', 'c', 'x')\<close> is inserted; \<open>('a', 'b.c', 'y')\<close> is deleted, or
  has its \<open>v\<close> updated to \<open>'z'\<close>; \<open>('p', 'q', 'w')\<close> is inserted.
\<close>

definition ex_insert_ab_c :: RowChange where
  "ex_insert_ab_c =
     \<lparr>preValues = None, postValues = Some [VStr ''a.b'', VStr ''c'', VStr ''x''],
      tp = RowChangeInsert, UniqueNotNullIdx = Some [0, 1]\<rparr>"

definition ex_delete_a_bc :: RowChange where
  "ex_delete_a_bc =
     \<lparr>preValues = Some [VStr ''a'', VStr ''b.c'', VStr ''y''], postValues = None,
      tp = RowChangeDelete, UniqueNotNullIdx = Some [0, 1]\<rparr>"

definition ex_update_a_bc :: RowChange where
  "ex_update_a_bc =
     \<lparr>preValues = Some [VStr ''a'', VStr ''b.c'', VStr ''y''],
      postValues = Some [VStr ''a'', VStr ''b.c'', VStr ''z''],
      tp = RowChangeUpdate, UniqueNotNullIdx = Some [0, 1]\<rparr>"

definition ex_insert_p_q :: RowChange where
  "ex_insert_p_q =
     \<lparr>preValues = None, postValues = Some [VStr ''p'', VStr ''q'', VStr ''w''],
      tp = RowChangeInsert, UniqueNotNullIdx = Some [0, 1]\<rparr>"

text \<open>
  A table actor with one node. The pipeline state is the node's input channel, the list
  of events its downstream has taken, and the barrier timestamps the sink node has been
  given; the fetcher receives from the channel, the sender always succeeds. The sink
  node's barrier handler records the timestamp; a second handler fails.
\<close>

definition ex_node :: "(nat, (nat list \<times> nat list) \<times> Ts list) node" where
  "ex_node =
     \<lparr>eventStash = None,
      messageFetcher = (\<lambda>w. case ChannelMessageFetcher_TryGetMessage (fst (fst w)) of
                               (m, rest) \<Rightarrow> (m, ((rest, snd (fst w)), snd w))),
      messageSender = (\<lambda>w m. (True, ((fst (fst w), snd (fst w) @ [m]), snd w)))\<rparr>"

definition ex_actor :: "(nat, (nat list \<times> nat list) \<times> Ts list) tableActor" where
  "ex_actor =
     \<lparr>stopped = False, err = None, cancelled = False, reported = [], nodes = [ex_node],
      pipeline = (([7, 8], []), [])\<rparr>"

definition ex_HandleMessages ::
  "(nat list \<times> nat list) \<times> Ts list \<Rightarrow> Message \<Rightarrow> error option \<times> ((nat list \<times> nat list) \<times> Ts list)" where
  "ex_HandleMessages w msg = (None, (fst w, snd w @ [BarrierTs msg]))"

definition ex_HandleMessages_failing ::
  "(nat list \<times> nat list) \<times> Ts list \<Rightarrow> Message \<Rightarrow> error option \<times> ((nat list \<times> nat list) \<times> Ts list)" where
  "ex_HandleMessages_failing w msg = (Some (ErrExternal ''sink closed''), w)"

definition ex_stopMsg :: Message where
  "ex_stopMsg = \<lparr>Tp = TypeStop, BarrierTs = 0\<rparr>"

definition ex_tickMsg :: Message where
  "ex_tickMsg = \<lparr>Tp = TypeTick, BarrierTs = 0\<rparr>"

definition ex_barrierMsg :: Message where
  "ex_barrierMsg = \<lparr>Tp = TypeBarrier, BarrierTs = 100\<rparr>"

text \<open>
  Scenario 1 of the specification: a relay with GTID enabled whose metadata records the
  upstream \<open>uuid-A\<close> and the minimal position. The stream begins with the fake rotate
  naming \<open>mysql-bin.000001\<close>, then an XID event ends a transaction at offset 512. In
  scenario 3 a fake rotate arrives when the upstream reports the UUID \<open>uuid-B\<close>.
\<close>

definition ex_relayCfg :: relayCfg where
  "ex_relayCfg =
     \<lparr>EnableGTID = True, CheckIsDDL = (\<lambda>q. q \<noteq> ''BEGIN''),
      IsFakeRotateEvent = IsFakeRotateEvent_spec,
      gtidSet = (\<lambda>g s. Inr (case s of None \<Rightarrow> g | Some g' \<Rightarrow> g'))\<rparr>"

definition ex_metaPos :: Position where
  "ex_metaPos = \<lparr>Name = [], Pos = 4\<rparr>"

definition ex_fake_rotate :: BinlogEvent where
  "ex_fake_rotate =
     \<lparr>Header = \<lparr>Timestamp = 0, EventType = 4, ServerID = 1, EventSize = 47,
                EventHeader.LogPos = 0, Flags = 0x0020\<rparr>,
      Event = RotateEvent 4 ''mysql-bin.000001''\<rparr>"

definition ex_xid :: BinlogEvent where
  "ex_xid =
     \<lparr>Header = \<lparr>Timestamp = 1700000000, EventType = 16, ServerID = 1, EventSize = 31,
                EventHeader.LogPos = 512, Flags = 0\<rparr>,
      Event = XIDEvent (Some ''3e11fa47:1-101'')\<rparr>"

definition ex_iterEnv_rotate :: iterEnv where
  "ex_iterEnv_rotate =
     \<lparr>GetEvent = Inr ex_fake_rotate,
      isNewServer = isNewServer_spec ''uuid-A'' (Inr ''uuid-A''), firstSave = None,
      firstFlush = None, WriteEvent = Inr (WResult False []), posSave = None,
      rotateSave = None, rotateFlush = None\<rparr>"

definition ex_iterEnv_xid :: iterEnv where
  "ex_iterEnv_xid =
     \<lparr>GetEvent = Inr ex_xid,
      isNewServer = isNewServer_spec ''uuid-A'' (Inr ''uuid-A''), firstSave = None,
      firstFlush = None, WriteEvent = Inr (WResult False []), posSave = None,
      rotateSave = None, rotateFlush = None\<rparr>"

definition ex_iterEnv_rotate_switched :: iterEnv where
  "ex_iterEnv_rotate_switched =
     \<lparr>GetEvent = Inr ex_fake_rotate,
      isNewServer = isNewServer_spec ''uuid-A'' (Inr ''uuid-B''), firstSave = None,
      firstFlush = None, WriteEvent = Inr (WResult False []), posSave = None,
      rotateSave = None, rotateFlush = None\<rparr>"

text \<open>The calls made for the first two events of scenario 1.\<close>

definition ex_relayActions :: "relayAction list" where
  "ex_relayActions =
     [ASaveMeta \<lparr>Name = ''mysql-bin.000001'', Pos = 4\<rparr> [] None,
      AFlushMeta None,
      AWriteEvent ex_fake_rotate (Inr (WResult False [])),
      ANotify ex_fake_rotate,
      AWriteEvent ex_xid (Inr (WResult False [])),
      ANotify ex_xid,
      ASaveMeta \<lparr>Name = ''mysql-bin.000001'', Pos = 512\<rparr> ''3e11fa47:1-101'' None]"

section \<open>DDL sink: results of \<open>emitDDLEvent\<close> and the watermark invariant\<close>

lemma emitDDLEvent_done:
  "fst (fst (emitDDLEvent ctxDone pickDone s ddl)) = (CommitTs ddl \<le> ddlFinishedTs s)"
  by (simp add: emitDDLEvent_def Let_def)

text \<open>
  Claim C1. \<open>emitDDLEvent d\<close> returns \<open>done = true\<close> exactly when
  \<open>d.CommitTs \<le> ddlFinishedTs\<close> at the call. When \<open>d.CommitTs > ddlFinishedTs\<close> the
  result is \<open>done = false\<close> in each of the three situations: the event is already in
  flight (\<open>d.CommitTs \<le> ddlSentTs\<close>, nothing changes), the channel is full (nothing
  changes), or the event is newly sent (it is appended to the channel and
  \<open>ddlSentTs\<close> becomes \<open>d.CommitTs\<close>).
\<close>

theorem emitDDLEvent_done_iff_finished:
  "(fst (fst (emitDDLEvent ctxDone pickDone s d)) \<longleftrightarrow> CommitTs d \<le> ddlFinishedTs s)
   \<and> (ddlFinishedTs s < CommitTs d \<longrightarrow> \<not> fst (fst (emitDDLEvent ctxDone pickDone s d)))
   \<and> (ddlFinishedTs s < CommitTs d \<and> CommitTs d \<le> ddlSentTs s \<longrightarrow>
        emitDDLEvent ctxDone pickDone s d = ((False, None), s))
   \<and> (ddlFinishedTs s < CommitTs d \<and> ddlSentTs s < CommitTs d \<and> ddlChCap \<le> length (ddlCh s)
        \<and> \<not> ctxDone \<longrightarrow>
        emitDDLEvent ctxDone pickDone s d = ((False, None), s))
   \<and> (ddlFinishedTs s < CommitTs d \<and> ddlSentTs s < CommitTs d \<and> length (ddlCh s) < ddlChCap
        \<and> \<not> (ctxDone \<and> pickDone) \<longrightarrow>
        emitDDLEvent ctxDone pickDone s d =
          ((False, None), s\<lparr>ddlCh := ddlCh s @ [d], ddlSentTs := CommitTs d\<rparr>))"
  by (auto simp add: emitDDLEvent_def Let_def not_le not_less)

theorem emitDDLEvent_done_iff_finished_witness:
  "emitDDLEvent False False \<lparr>ddlFinishedTs = 100, ddlSentTs = 100, ddlCh = []\<rparr>
      \<lparr>CommitTs = 100, Query = ''create table t(a int)''\<rparr>
     = ((True, None), \<lparr>ddlFinishedTs = 100, ddlSentTs = 100, ddlCh = []\<rparr>)
   \<and> emitDDLEvent False False \<lparr>ddlFinishedTs = 100, ddlSentTs = 120, ddlCh = []\<rparr>
      \<lparr>CommitTs = 120, Query = ''drop table t''\<rparr>
     = ((False, None), \<lparr>ddlFinishedTs = 100, ddlSentTs = 120, ddlCh = []\<rparr>)
   \<and> emitDDLEvent False False
      \<lparr>ddlFinishedTs = 100, ddlSentTs = 120, ddlCh = [\<lparr>CommitTs = 120, Query = ''drop table t''\<rparr>]\<rparr>
      \<lparr>CommitTs = 130, Query = ''create table u(a int)''\<rparr>
     = ((False, None),
        \<lparr>ddlFinishedTs = 100, ddlSentTs = 120, ddlCh = [\<lparr>CommitTs = 120, Query = ''drop table t''\<rparr>]\<rparr>)
   \<and> emitDDLEvent False False \<lparr>ddlFinishedTs = 100, ddlSentTs = 100, ddlCh = []\<rparr>
      \<lparr>CommitTs = 130, Query = ''create table u(a int)''\<rparr>
     = ((False, None),
        \<lparr>ddlFinishedTs = 100, ddlSentTs = 130, ddlCh = [\<lparr>CommitTs = 130, Query = ''create table u(a int)''\<rparr>]\<rparr>)"
proof -
  let ?q1 = "\<lparr>CommitTs = (100::Ts), Query = ''create table t(a int)''\<rparr>"
  let ?q2 = "\<lparr>CommitTs = (120::Ts), Query = ''drop table t''\<rparr>"
  let ?q3 = "\<lparr>CommitTs = (130::Ts), Query = ''create table u(a int)''\<rparr>"
  let ?s1 = "\<lparr>ddlFinishedTs = (100::Ts), ddlSentTs = 100, ddlCh = []\<rparr>"
  let ?s2 = "\<lparr>ddlFinishedTs = (100::Ts), ddlSentTs = 120, ddlCh = []\<rparr>"
  let ?s3 = "\<lparr>ddlFinishedTs = (100::Ts), ddlSentTs = 120, ddlCh = [?q2]\<rparr>"
  have a: "fst (fst (emitDDLEvent False False ?s1 ?q1))"
    using emitDDLEvent_done_iff_finished [of False False ?s1 ?q1] by simp
  have a': "emitDDLEvent False False ?s1 ?q1 = ((True, None), ?s1)"
    using a by (simp add: emitDDLEvent_def)
  have b: "emitDDLEvent False False ?s2 ?q2 = ((False, None), ?s2)"
    using emitDDLEvent_done_iff_finished [of False False ?s2 ?q2] by simp
  have c: "emitDDLEvent False False ?s3 ?q3 = ((False, None), ?s3)"
    using emitDDLEvent_done_iff_finished [of False False ?s3 ?q3] by (simp add: ddlChCap_def)
  have d: "emitDDLEvent False False ?s1 ?q3
      = ((False, None), ?s1\<lparr>ddlCh := ddlCh ?s1 @ [?q3], ddlSentTs := CommitTs ?q3\<rparr>)"
    using emitDDLEvent_done_iff_finished [of False False ?s1 ?q3] by (simp add: ddlChCap_def)
  from a' b c d show ?thesis by simp
qed

lemma emitDDLEvent_steps:
  "snd (emitDDLEvent ctxDone pickDone s ddl) =
     (case emitDDLEvent_select ctxDone pickDone (ddlFinishedTs s) s ddl of
        (s', OwnerSent d) \<Rightarrow> emitDDLEvent_assign s' d
      | (s', _) \<Rightarrow> s')"
  by (simp add: emitDDLEvent_def emitDDLEvent_select_def emitDDLEvent_assign_def Let_def)

lemma ddlSink_bound_simps [simp]:
  "ddlSink_bound s OwnerIdle = ddlSentTs s"
  "ddlSink_bound s (OwnerLoaded ddl fin) = ddlSentTs s"
  "ddlSink_bound s (OwnerSent ddl) = CommitTs ddl"
  "ddlSink_bound (s\<lparr>ddlFinishedTs := x\<rparr>) ow = ddlSink_bound s ow"
  "ddlSink_bound (s\<lparr>ddlCh := ch\<rparr>) ow = ddlSink_bound s ow"
  by (simp_all add: ddlSink_bound_def split: ownerState.splits)

lemma emitDDLEvent_select_inv:
  assumes "emitDDLEvent_select ctxDone pickDone fin s ddl = (s', ow')"
    and "ddlSink_inv (s, OwnerLoaded ddl fin, r)"
  shows "ddlSink_inv (s', ow', r)"
proof (cases "ow' = OwnerSent ddl \<and> s' = s\<lparr>ddlCh := ddlCh s @ [ddl]\<rparr> \<and> ddlSentTs s < CommitTs ddl")
  case True
  with assms(2) show ?thesis
    by (auto simp add: ddlSink_inv_def list_all_iff
        split: runState.splits intro: order_trans less_imp_le)
next
  case False
  with assms(1) have "s' = s" and "ow' = OwnerIdle"
    by (auto simp add: emitDDLEvent_select_def Let_def not_le split: if_splits)
  with assms(2) show ?thesis
    by (simp add: ddlSink_inv_def)
qed

lemma emitDDLEvent_assign_inv:
  "ddlSink_inv (s, OwnerSent ddl, r) \<Longrightarrow> ddlSink_inv (emitDDLEvent_assign s ddl, OwnerIdle, r)"
  by (auto simp add: ddlSink_inv_def emitDDLEvent_assign_def split: runState.splits)

lemma run_finish_inv:
  "run_finish res s ddl = (s', r') \<Longrightarrow> ddlSink_inv (s, ow, Emitting ddl) \<Longrightarrow> ddlSink_inv (s', ow, r')"
  by (auto simp add: ddlSink_inv_def run_finish_def split: if_splits)

lemma ddlSink_step_inv:
  "ddlSink_step st st' \<Longrightarrow> ddlSink_inv st \<Longrightarrow> ddlSink_inv st'"
proof (induction rule: ddlSink_step.induct)
  case (step_load s r ddl)
  then show ?case by (simp add: ddlSink_inv_def)
next
  case (step_select ctxDone pickDone fin s ddl s' ow' r)
  then show ?case by (rule emitDDLEvent_select_inv)
next
  case (step_assign s ddl r)
  then show ?case by (rule emitDDLEvent_assign_inv)
next
  case (step_recv s ddl rest ow)
  then show ?case by (simp add: ddlSink_inv_def)
next
  case (step_finish res s ddl s' r' ow)
  then show ?case by (rule run_finish_inv)
next
  case (step_exit s ow)
  then show ?case by (simp add: ddlSink_inv_def)
qed

lemma ddlSink_reachable_inv: "ddlSink_reachable st \<Longrightarrow> ddlSink_inv st"
proof (induction rule: ddlSink_reachable.induct)
  case reach_init
  show ?case by (simp add: ddlSink_inv_def newDDLSink_def)
next
  case (reach_step st st')
  then show ?case using ddlSink_step_inv by blast
qed

text \<open>
  Claim C8, as amended. In every state of the DDL sink reachable from \<open>newDDLSink\<close> by
  the steps of \<open>emitDDLEvent\<close> calls and of the background loop, interleaved in any
  order: when no call of \<open>emitDDLEvent\<close> stands between its channel send and its
  assignment of \<open>ddlSentTs\<close> (in particular whenever a call starts or has returned),
  \<open>ddlSentTs \<ge> ddlFinishedTs\<close>; between the send and the assignment, both watermarks
  are at most the commit-ts that is about to be assigned.
\<close>

theorem ddlSentTs_ge_ddlFinishedTs:
  assumes "ddlSink_reachable (s, ow, r)"
  shows "((\<forall>d. ow \<noteq> OwnerSent d) \<longrightarrow> ddlFinishedTs s \<le> ddlSentTs s)
       \<and> (\<forall>d. ow = OwnerSent d \<longrightarrow>
            ddlFinishedTs s \<le> CommitTs d \<and> ddlSentTs s \<le> CommitTs d)"
  using ddlSink_reachable_inv [OF assms]
  by (cases ow) (simp_all add: ddlSink_inv_def)

lemma ddlSink_reachable_ex_sent:
  "ddlSink_reachable
     (\<lparr>ddlFinishedTs = 0, ddlSentTs = 0, ddlCh = [ex_ddl]\<rparr>, OwnerSent ex_ddl, Waiting)"
proof -
  have "ddlSink_step (newDDLSink, OwnerIdle, Waiting)
          (newDDLSink, OwnerLoaded ex_ddl (ddlFinishedTs newDDLSink), Waiting)"
    by (rule step_load)
  with reach_init
  have r1: "ddlSink_reachable (newDDLSink, OwnerLoaded ex_ddl (ddlFinishedTs newDDLSink), Waiting)"
    by (rule reach_step)
  have "emitDDLEvent_select False False (ddlFinishedTs newDDLSink) newDDLSink ex_ddl
          = (\<lparr>ddlFinishedTs = 0, ddlSentTs = 0, ddlCh = [ex_ddl]\<rparr>, OwnerSent ex_ddl)"
    by (simp add: emitDDLEvent_select_def newDDLSink_def ddlChCap_def ex_ddl_def)
  then have "ddlSink_step (newDDLSink, OwnerLoaded ex_ddl (ddlFinishedTs newDDLSink), Waiting)
          (\<lparr>ddlFinishedTs = 0, ddlSentTs = 0, ddlCh = [ex_ddl]\<rparr>, OwnerSent ex_ddl, Waiting)"
    by (rule step_select)
  with r1 show ?thesis by (rule reach_step)
qed

lemma ddlSink_reachable_ex_finished_first:
  "ddlSink_reachable
     (\<lparr>ddlFinishedTs = 130, ddlSentTs = 0, ddlCh = []\<rparr>, OwnerSent ex_ddl, Waiting)"
proof -
  let ?s1 = "\<lparr>ddlFinishedTs = (0::Ts), ddlSentTs = 0, ddlCh = [ex_ddl]\<rparr>"
  let ?s2 = "\<lparr>ddlFinishedTs = (0::Ts), ddlSentTs = 0, ddlCh = []\<rparr>"
  let ?s3 = "\<lparr>ddlFinishedTs = (130::Ts), ddlSentTs = 0, ddlCh = []\<rparr>"
  have "ddlSink_step (?s1, OwnerSent ex_ddl, Waiting)
          (?s1\<lparr>ddlCh := []\<rparr>, OwnerSent ex_ddl, Emitting ex_ddl)"
    by (rule step_recv) simp
  then have "ddlSink_step (?s1, OwnerSent ex_ddl, Waiting) (?s2, OwnerSent ex_ddl, Emitting ex_ddl)"
    by simp
  with ddlSink_reachable_ex_sent
  have r2: "ddlSink_reachable (?s2, OwnerSent ex_ddl, Emitting ex_ddl)" by (rule reach_step)
  have "run_finish None ?s2 ex_ddl = (?s3, Waiting)"
    by (simp add: run_finish_def ex_ddl_def)
  then have "ddlSink_step (?s2, OwnerSent ex_ddl, Emitting ex_ddl) (?s3, OwnerSent ex_ddl, Waiting)"
    by (rule step_finish)
  with r2 show ?thesis by (rule reach_step)
qed

lemma ddlSink_reachable_ex_assigned:
  "ddlSink_reachable (\<lparr>ddlFinishedTs = 130, ddlSentTs = 130, ddlCh = []\<rparr>, OwnerIdle, Waiting)"
proof -
  let ?s3 = "\<lparr>ddlFinishedTs = (130::Ts), ddlSentTs = 0, ddlCh = []\<rparr>"
  have "ddlSink_step (?s3, OwnerSent ex_ddl, Waiting)
          (emitDDLEvent_assign ?s3 ex_ddl, OwnerIdle, Waiting)"
    by (rule step_assign)
  then have "ddlSink_step (?s3, OwnerSent ex_ddl, Waiting)
          (\<lparr>ddlFinishedTs = 130, ddlSentTs = 130, ddlCh = []\<rparr>, OwnerIdle, Waiting)"
    by (simp add: emitDDLEvent_assign_def ex_ddl_def)
  with ddlSink_reachable_ex_finished_first show ?thesis by (rule reach_step)
qed

theorem ddlSentTs_ge_ddlFinishedTs_witness:
  "ddlSink_reachable (\<lparr>ddlFinishedTs = 130, ddlSentTs = 130, ddlCh = []\<rparr>, OwnerIdle, Waiting)
   \<and> ddlFinishedTs \<lparr>ddlFinishedTs = 130, ddlSentTs = 130, ddlCh = []\<rparr>
       \<le> ddlSentTs \<lparr>ddlFinishedTs = (130::Ts), ddlSentTs = 130, ddlCh = []\<rparr>
   \<and> ddlSink_reachable
       (\<lparr>ddlFinishedTs = 130, ddlSentTs = 0, ddlCh = []\<rparr>, OwnerSent ex_ddl, Waiting)
   \<and> ddlFinishedTs \<lparr>ddlFinishedTs = 130, ddlSentTs = 0, ddlCh = []\<rparr> \<le> CommitTs ex_ddl"
proof -
  from ddlSentTs_ge_ddlFinishedTs [OF ddlSink_reachable_ex_assigned]
  have a: "ddlFinishedTs \<lparr>ddlFinishedTs = 130, ddlSentTs = 130, ddlCh = []\<rparr>
       \<le> ddlSentTs \<lparr>ddlFinishedTs = (130::Ts), ddlSentTs = 130, ddlCh = []\<rparr>"
    by simp
  from ddlSentTs_ge_ddlFinishedTs [OF ddlSink_reachable_ex_finished_first]
  have b: "ddlFinishedTs \<lparr>ddlFinishedTs = 130, ddlSentTs = 0, ddlCh = []\<rparr> \<le> CommitTs ex_ddl"
    by simp
  from a b ddlSink_reachable_ex_assigned ddlSink_reachable_ex_finished_first
  show ?thesis by blast
qed

text \<open>
  Claim C8 as stated has the inequality in every reachable state. The owner sends the
  DDL with commit-ts 130 on the channel; before it assigns \<open>ddlSentTs\<close>, the background
  goroutine receives the DDL, emits it and stores \<open>ddlFinishedTs = 130\<close>: in that state
  \<open>ddlSentTs\<close> is still 0.
\<close>

theorem ddlFinishedTs_above_ddlSentTs_before_assignment:
  "ddlSink_reachable
     (\<lparr>ddlFinishedTs = 130, ddlSentTs = 0, ddlCh = []\<rparr>, OwnerSent ex_ddl, Waiting)
   \<and> \<not> ddlFinishedTs \<lparr>ddlFinishedTs = 130, ddlSentTs = 0, ddlCh = []\<rparr>
         \<le> ddlSentTs \<lparr>ddlFinishedTs = (130::Ts), ddlSentTs = 0, ddlCh = []\<rparr>"
  using ddlSink_reachable_ex_finished_first by simp

section \<open>Changefeed owner: the watermarks written by a tick\<close>

lemma handleBarrier_returns_min:
  "fst (handleBarrier env status) = Inr b \<Longrightarrow> b = snd (barriersMin env)"
  by (auto simp add: handleBarrier_def Let_def
      split: prod.splits option.splits barrierType.splits if_splits sum.splits)

lemma handleBarrier_no_UpdateStatus:
  "UpdateStatus cp rs \<notin> set (snd (handleBarrier env status))"
  by (auto simp add: handleBarrier_def Let_def
      split: prod.splits option.splits barrierType.splits if_splits sum.splits)

lemma handleBarrier_Inr_status:
  "fst (handleBarrier env status) = Inr b \<Longrightarrow> \<exists>st. status = Some st"
  by (auto simp add: handleBarrier_def Let_def split: prod.splits option.splits)

lemma updateStatus_Some:
  "fst (updateStatus cp rs (Some st)) = Some (st\<lparr>ResolvedTs := rs, CheckpointTs := cp\<rparr>)"
  by (simp add: updateStatus_def Let_def)

text \<open>
  Claim C2, as amended. Whenever a tick calls \<open>updateStatus cp rs\<close> (which it does only
  when the scheduler returned a checkpoint other than \<open>CheckpointCannotProceed\<close>),
  \<open>handleBarrier\<close> had returned the minimum barrier \<open>b\<close>, and the values written satisfy
  \<open>cp \<le> b\<close> and \<open>rs \<le> b\<close>: they are the scheduler's values clamped to \<open>b\<close>, so
  \<open>cp \<le> rs\<close> as well whenever the scheduler's own pair is ordered that way, and they are
  the watermarks of the status after the tick.
\<close>

theorem tick_updateStatus_le_barrierTs:
  assumes "tick env status = (res, status', acts)"
    and "UpdateStatus cp rs \<in> set acts"
  shows "\<exists>b ncp nrs st.
           fst (handleBarrier (barrierEnv env) status) = Inr b
         \<and> b = snd (barriersMin (barrierEnv env))
         \<and> schedulerTick env = Inr (ncp, nrs)
         \<and> ncp \<noteq> CheckpointCannotProceed env
         \<and> cp = min ncp b \<and> rs = min nrs b
         \<and> cp \<le> b \<and> rs \<le> b
         \<and> (ncp \<le> nrs \<longrightarrow> cp \<le> rs)
         \<and> res = None
         \<and> status = Some st
         \<and> status' = Some (st\<lparr>ResolvedTs := rs, CheckpointTs := cp\<rparr>)"
proof -
  obtain r bacts where hb: "handleBarrier (barrierEnv env) status = (r, bacts)"
    by (cases "handleBarrier (barrierEnv env) status")
  have nb: "UpdateStatus cp rs \<notin> set bacts"
    using handleBarrier_no_UpdateStatus [of cp rs "barrierEnv env" status] hb by simp
  from assms hb nb obtain b ncp nrs where
    r: "r = Inr b" and sched: "schedulerTick env = Inr (ncp, nrs)"
    and ncp: "ncp \<noteq> CheckpointCannotProceed env"
    and cp: "cp = (if ncp > b then b else ncp)" and rs: "rs = (if nrs > b then b else nrs)"
    and res: "res = None"
    and st': "status' = fst (updateStatus cp rs status)"
    by (auto simp add: tick_def Let_def split: option.splits if_splits sum.splits prod.splits)
  from hb r have fb: "fst (handleBarrier (barrierEnv env) status) = Inr b" by simp
  from handleBarrier_Inr_status [OF fb] obtain st where st: "status = Some st" by blast
  have "b = snd (barriersMin (barrierEnv env))" using handleBarrier_returns_min [OF fb] .
  moreover have "cp = min ncp b" "rs = min nrs b" using cp rs by (auto simp add: min_def)
  moreover have "cp \<le> b" "rs \<le> b" using cp rs by auto
  moreover have "ncp \<le> nrs \<longrightarrow> cp \<le> rs" using cp rs by auto
  moreover have "status' = Some (st\<lparr>ResolvedTs := rs, CheckpointTs := cp\<rparr>)"
    using st' st updateStatus_Some by simp
  ultimately show ?thesis using fb sched ncp res st by blast
qed

lemma tick_ex_advance:
  "tick ex_tickEnv_advance (Some ex_status)
     = (None, Some \<lparr>ResolvedTs = 200, CheckpointTs = 150\<rparr>,
        [EmitCheckpointTs 100, UpdateStatus 150 200, UpdateMetrics 150 200])"
  by (simp add: tick_def handleBarrier_def updateStatus_def ex_tickEnv_advance_def
      ex_status_def Let_def)

theorem tick_updateStatus_le_barrierTs_witness:
  "tick ex_tickEnv_advance (Some ex_status)
     = (None, Some \<lparr>ResolvedTs = 200, CheckpointTs = 150\<rparr>,
        [EmitCheckpointTs 100, UpdateStatus 150 200, UpdateMetrics 150 200])
   \<and> UpdateStatus 150 200 \<in> set [EmitCheckpointTs 100, UpdateStatus 150 200, UpdateMetrics 150 200]
   \<and> fst (handleBarrier (barrierEnv ex_tickEnv_advance) (Some ex_status)) = Inr 200
   \<and> (150::Ts) \<le> 200 \<and> (200::Ts) \<le> 200"
proof -
  have m: "UpdateStatus 150 200
      \<in> set [EmitCheckpointTs 100, UpdateStatus 150 200, UpdateMetrics 150 200]"
    by simp
  from tick_updateStatus_le_barrierTs [OF tick_ex_advance m]
  obtain b where "fst (handleBarrier (barrierEnv ex_tickEnv_advance) (Some ex_status)) = Inr b"
    and "b = snd (barriersMin (barrierEnv ex_tickEnv_advance))"
    and "(150::Ts) \<le> b" and "(200::Ts) \<le> b"
    by blast
  then show ?thesis using tick_ex_advance m by (simp add: ex_tickEnv_advance_def)
qed

text \<open>
  Claim C2 as stated also says that the owner maintains
  \<open>checkpointTs \<le> resolvedTs \<le> barrierTs\<close> at all times. On the first tick after
  initialization at checkpoint 100, \<open>handleBarrier\<close> returns the barrier 99, the guard
  \<open>barrierTs < checkpointTs\<close> makes \<open>tick\<close> return without an error, and the owner is left
  with \<open>checkpointTs = resolvedTs = 100\<close> above \<open>barrierTs = 99\<close>.
\<close>

theorem tick_barrierTs_below_checkpointTs:
  "tick ex_tickEnv_first (Some ex_status)
     = (None, Some ex_status, [EmitCheckpointTs 100, BarrierUpdate ddlJobBarrier 99])
   \<and> fst (handleBarrier (barrierEnv ex_tickEnv_first) (Some ex_status)) = Inr 99
   \<and> \<not> ResolvedTs ex_status \<le> 99
   \<and> \<not> CheckpointTs ex_status \<le> 99"
  by (simp add: tick_def handleBarrier_def ex_tickEnv_first_def ex_status_def Let_def)

section \<open>Relay: what \<open>doRecovering\<close> returns\<close>

lemma word32_of_int_in_range:
  "0 \<le> (n::int) \<Longrightarrow> n < 2 ^ 32 \<Longrightarrow> uint (word_of_int n :: 32 word) = n"
  by (simp add: uint_word_of_int take_bit_int_eq_self)

text \<open>
  What \<open>doRecovering\<close> does for a relay log file with a non-empty name that exists,
  with size \<open>fsSize\<close>, whose scan yields the offset \<open>latestPos\<close> of its last complete
  transaction: when the size equals \<open>latestPos\<close> the result is \<open>Truncated = false\<close> and
  the file is untouched; when the size is smaller the result is an error; when the size
  is larger and the file can be opened and truncated, the file is truncated to
  \<open>latestPos\<close> and the result is \<open>Truncated = true\<close>. In both successful cases the
  file ends at \<open>latestPos\<close>. The position returned is \<open>uint32(latestPos)\<close>: it is
  \<open>latestPos\<close> when \<open>0 \<le> latestPos < 2^32\<close>.
\<close>

lemma doRecovering_by_size:
  assumes "osStat env = StatOk fsSize"
    and "filename \<noteq> []"
    and "getTxnPosGTIDs env = Inr (latestPos, latestGTIDs)"
  shows "(fsSize = latestPos \<longrightarrow>
            doRecovering env filename =
              (Inr \<lparr>Truncated = False,
                    LatestPos = \<lparr>Name = filename, Pos = word_of_int latestPos\<rparr>,
                    LatestGTIDs = latestGTIDs\<rparr>, None))
       \<and> (fsSize < latestPos \<longrightarrow>
            doRecovering env filename =
              (Inl (ErrRelayWriterLatestPosGTFileSize latestPos fsSize), None))
       \<and> (latestPos < fsSize \<and> openFileOk env \<and> truncateOk env \<longrightarrow>
            doRecovering env filename =
              (Inr \<lparr>Truncated = True,
                    LatestPos = \<lparr>Name = filename, Pos = word_of_int latestPos\<rparr>,
                    LatestGTIDs = latestGTIDs\<rparr>, Some latestPos))
       \<and> (\<forall>r. fst (doRecovering env filename) = Inr r \<longrightarrow>
            (case snd (doRecovering env filename) of None \<Rightarrow> fsSize | Some n \<Rightarrow> n) = latestPos
            \<and> Truncated r = (latestPos < fsSize)
            \<and> Name (LatestPos r) = filename
            \<and> Pos (LatestPos r) = word_of_int latestPos
            \<and> (0 \<le> latestPos \<and> latestPos < 2 ^ 32 \<longrightarrow> uint (Pos (LatestPos r)) = latestPos))"
  using assms by (auto simp add: doRecovering_def word32_of_int_in_range)

lemma doRecovering_by_size_examples:
  "doRecovering ex_recoverEnv_crash ''mysql-bin.000001'' =
     (Inr \<lparr>Truncated = True, LatestPos = \<lparr>Name = ''mysql-bin.000001'', Pos = 768\<rparr>,
           LatestGTIDs = None\<rparr>, Some 768)
   \<and> doRecovering ex_recoverEnv_clean ''mysql-bin.000001'' =
     (Inr \<lparr>Truncated = False, LatestPos = \<lparr>Name = ''mysql-bin.000001'', Pos = 768\<rparr>,
           LatestGTIDs = None\<rparr>, None)
   \<and> doRecovering ex_recoverEnv_short ''mysql-bin.000001'' =
     (Inl (ErrRelayWriterLatestPosGTFileSize 768 512), None)"
proof -
  have a: "osStat ex_recoverEnv_crash = StatOk 1024"
    and b: "getTxnPosGTIDs ex_recoverEnv_crash = Inr (768, None)"
    and c: "openFileOk ex_recoverEnv_crash" "truncateOk ex_recoverEnv_crash"
    by (simp_all add: ex_recoverEnv_crash_def)
  have n: "''mysql-bin.000001'' \<noteq> []" by simp
  have a': "osStat ex_recoverEnv_clean = StatOk 768"
    and b': "getTxnPosGTIDs ex_recoverEnv_clean = Inr (768, None)"
    by (simp_all add: ex_recoverEnv_clean_def)
  have a'': "osStat ex_recoverEnv_short = StatOk 512"
    and b'': "getTxnPosGTIDs ex_recoverEnv_short = Inr (768, None)"
    by (simp_all add: ex_recoverEnv_short_def)
  from doRecovering_by_size [OF a n b, THEN conjunct2, THEN conjunct2, THEN conjunct1] c
  have e1: "doRecovering ex_recoverEnv_crash ''mysql-bin.000001'' =
     (Inr \<lparr>Truncated = True, LatestPos = \<lparr>Name = ''mysql-bin.000001'', Pos = 768\<rparr>,
           LatestGTIDs = None\<rparr>, Some 768)"
    by simp
  from doRecovering_by_size [OF a' n b', THEN conjunct1]
  have e2: "doRecovering ex_recoverEnv_clean ''mysql-bin.000001'' =
     (Inr \<lparr>Truncated = False, LatestPos = \<lparr>Name = ''mysql-bin.000001'', Pos = 768\<rparr>,
           LatestGTIDs = None\<rparr>, None)"
    by simp
  from doRecovering_by_size [OF a'' n b'', THEN conjunct2, THEN conjunct1]
  have e3: "doRecovering ex_recoverEnv_short ''mysql-bin.000001'' =
     (Inl (ErrRelayWriterLatestPosGTFileSize 768 512), None)"
    by simp
  from e1 e2 e3 show ?thesis by blast
qed

text \<open>
  Claim C3. The claim has \<open>LatestPos = latestPos\<close> for every relay log file, and
  \<open>doRecovering\<close> is documented to handle files of more than 4 GB. For a file of
  \<open>2^32 + 4\<close> bytes that ends with a complete transaction, so that the size equals
  \<open>latestPos = 4294967300\<close>, the function returns without an error, with
  \<open>Truncated = false\<close>, and reports the offset 4: the conversion \<open>uint32(latestPos)\<close>
  has dropped the high bits of the 64-bit offset.
\<close>

theorem doRecovering_large_file_offset:
  "doRecovering ex_recoverEnv_large ''mysql-bin.000001'' =
     (Inr \<lparr>Truncated = False, LatestPos = \<lparr>Name = ''mysql-bin.000001'', Pos = 4\<rparr>,
           LatestGTIDs = None\<rparr>, None)
   \<and> uint (4 :: 32 word) \<noteq> 4294967300"
  by (simp add: doRecovering_def ex_recoverEnv_large_def)

section \<open>Relay: events with the artificial flag\<close>

text \<open>
  Claim C5, as amended. For an event whose header has \<open>LOG_EVENT_ARTIFICIAL_F\<close> set:
  when its payload is of a type that the switch of \<open>preprocessEvent\<close> does not name, the
  result is \<open>Ignore = true\<close> with the reason "artificial flag (0x0020) set"; a
  previous-GTIDs, MariaDB GTID-list, rotate, query or XID event is not ignored; a generic
  event is ignored exactly when it is a heartbeat, and then with the heartbeat reason.
\<close>

theorem preprocessEvent_artificial_flag:
  assumes "Flags (Header e) AND LOG_EVENT_ARTIFICIAL_F \<noteq> 0"
  shows "(Event e = OtherEvent \<longrightarrow>
            Ignore (preprocessEvent isDDL e)
            \<and> IgnoreReason (preprocessEvent isDDL e) = ''artificial flag (0x0020) set'')
       \<and> (Event e \<in> {PreviousGTIDsEvent, MariadbGTIDListEvent}
            \<or> (\<exists>p n. Event e = RotateEvent p n) \<or> (\<exists>q g. Event e = QueryEvent q g)
            \<or> (\<exists>g. Event e = XIDEvent g) \<longrightarrow>
            \<not> Ignore (preprocessEvent isDDL e))
       \<and> (Event e = GenericEvent \<longrightarrow>
            Ignore (preprocessEvent isDDL e) = (EventType (Header e) = HEARTBEAT_EVENT)
            \<and> IgnoreReason (preprocessEvent isDDL e) \<noteq> ''artificial flag (0x0020) set'')"
  using assms
  by (auto simp add: preprocessEvent_def Let_def ignoreReasonArtificialFlag_def
      ignoreReasonHeartbeat_def split: if_splits)

theorem preprocessEvent_artificial_flag_witness:
  "Flags (Header ex_other_artificial) AND LOG_EVENT_ARTIFICIAL_F \<noteq> 0
   \<and> Event ex_other_artificial = OtherEvent
   \<and> Ignore (preprocessEvent (\<lambda>q. False) ex_other_artificial)
   \<and> IgnoreReason (preprocessEvent (\<lambda>q. False) ex_other_artificial) = ''artificial flag (0x0020) set''
   \<and> Flags (Header ex_xid_artificial) AND LOG_EVENT_ARTIFICIAL_F \<noteq> 0
   \<and> Event ex_xid_artificial = XIDEvent None
   \<and> \<not> Ignore (preprocessEvent (\<lambda>q. False) ex_xid_artificial)"
proof -
  have f: "Flags (Header ex_other_artificial) AND LOG_EVENT_ARTIFICIAL_F \<noteq> 0"
    by (simp add: ex_other_artificial_def ex_header_artificial_def LOG_EVENT_ARTIFICIAL_F_def)
  have o: "Event ex_other_artificial = OtherEvent"
    by (simp add: ex_other_artificial_def)
  have f': "Flags (Header ex_xid_artificial) AND LOG_EVENT_ARTIFICIAL_F \<noteq> 0"
    by (simp add: ex_xid_artificial_def ex_header_artificial_def LOG_EVENT_ARTIFICIAL_F_def)
  have x: "Event ex_xid_artificial = XIDEvent None"
    by (simp add: ex_xid_artificial_def)
  from preprocessEvent_artificial_flag [OF f, of "\<lambda>q. False", THEN conjunct1] o
  have i: "Ignore (preprocessEvent (\<lambda>q. False) ex_other_artificial)
      \<and> IgnoreReason (preprocessEvent (\<lambda>q. False) ex_other_artificial)
          = ''artificial flag (0x0020) set''"
    by blast
  from preprocessEvent_artificial_flag [OF f', of "\<lambda>q. False", THEN conjunct2, THEN conjunct1] x
  have ni: "\<not> Ignore (preprocessEvent (\<lambda>q. False) ex_xid_artificial)"
    by blast
  from f o i f' x ni show ?thesis by blast
qed

text \<open>
  Claim C5 as stated covers every event type but rotate. An XID event with the
  artificial flag set is not ignored: its result is that of any XID event.
\<close>

theorem preprocessEvent_xid_artificial_not_ignored:
  "Flags (Header ex_xid_artificial) AND LOG_EVENT_ARTIFICIAL_F \<noteq> 0
   \<and> preprocessEvent (\<lambda>q. False) ex_xid_artificial =
       \<lparr>Ignore = False, IgnoreReason = [], LogPos = 512, NextLogName = [], GTIDSet = None,
        CanSaveGTID = True\<rparr>"
  by (simp add: preprocessEvent_def ex_xid_artificial_def ex_header_artificial_def
      LOG_EVENT_ARTIFICIAL_F_def)

section \<open>Row changes: reduction of an insert followed by a delete\<close>

text \<open>
  Claim C4, as amended. For row changes \<open>A\<close> then \<open>B\<close> with equal identity keys, \<open>A\<close>
  an INSERT and \<open>B\<close> a DELETE, reducing the pair (\<open>B.Reduce(A)\<close>) leaves \<open>B\<close> as it is:
  the result is the DELETE, which remains to be emitted.
\<close>

theorem Reduce_insert_then_delete:
  assumes "IdentityKey A = Some k"
    and "IdentityKey B = Some k"
    and "tp A = RowChangeInsert"
    and "tp B = RowChangeDelete"
  shows "Reduce calculateType B A = Inr B"
  using assms by (simp add: Reduce_def)

lemma IdentityKey_ex_insert: "IdentityKey ex_insert = Some ''1''"
  by (simp add: IdentityKey_def IdentityValues_def ex_insert_def genKey_def fmt_v_def)

lemma IdentityKey_ex_delete: "IdentityKey ex_delete = Some ''1''"
  by (simp add: IdentityKey_def IdentityValues_def ex_delete_def genKey_def fmt_v_def)

theorem Reduce_insert_then_delete_witness:
  "IdentityKey ex_insert = Some ''1'' \<and> IdentityKey ex_delete = Some ''1''
   \<and> tp ex_insert = RowChangeInsert \<and> tp ex_delete = RowChangeDelete
   \<and> Reduce id ex_delete ex_insert = Inr ex_delete"
proof -
  have i: "tp ex_insert = RowChangeInsert" by (simp add: ex_insert_def)
  have d: "tp ex_delete = RowChangeDelete" by (simp add: ex_delete_def)
  from Reduce_insert_then_delete [OF IdentityKey_ex_insert IdentityKey_ex_delete i d, of id]
    IdentityKey_ex_insert IdentityKey_ex_delete i d
  show ?thesis by simp
qed

text \<open>
  Claim C4 as stated has the pair dropped. Reducing \<open>INSERT(id=1, v='a')\<close> followed by
  \<open>DELETE(id=1)\<close> returns the DELETE with its values: a row change remains.
\<close>

theorem Reduce_insert_delete_keeps_delete:
  "Reduce id ex_delete ex_insert =
     Inr \<lparr>preValues = Some [VInt 1, VStr ''a''], postValues = None, tp = RowChangeDelete,
          UniqueNotNullIdx = Some [0]\<rparr>"
  by (simp add: Reduce_def IdentityKey_ex_insert IdentityKey_ex_delete)
    (simp add: ex_delete_def ex_insert_def)

section \<open>Row changes: the identity key is not injective\<close>

lemma IdentityValues_ex_insert_ab_c:
  "IdentityValues ex_insert_ab_c = Some ([], [VStr ''a.b'', VStr ''c''])"
  by (simp add: IdentityValues_def ex_insert_ab_c_def)

lemma IdentityValues_ex_update_a_bc:
  "IdentityValues ex_update_a_bc = Some ([VStr ''a'', VStr ''b.c''], [VStr ''a'', VStr ''b.c''])"
  by (simp add: IdentityValues_def ex_update_a_bc_def)

lemma IdentityValues_ex_delete_a_bc:
  "IdentityValues ex_delete_a_bc = Some ([VStr ''a'', VStr ''b.c''], [])"
  by (simp add: IdentityValues_def ex_delete_a_bc_def)

lemma IdentityKey_ex_insert_ab_c: "IdentityKey ex_insert_ab_c = Some ''a.b.c''"
  by (simp add: IdentityKey_def IdentityValues_ex_insert_ab_c genKey_def fmt_v_def)

lemma IdentityKey_ex_update_a_bc: "IdentityKey ex_update_a_bc = Some ''a.b.c''"
  by (simp add: IdentityKey_def IdentityValues_ex_update_a_bc genKey_def fmt_v_def)

lemma IdentityKey_ex_delete_a_bc: "IdentityKey ex_delete_a_bc = Some ''a.b.c''"
  by (simp add: IdentityKey_def IdentityValues_ex_delete_a_bc genKey_def fmt_v_def)

lemma IdentityKey_ex_insert_p_q: "IdentityKey ex_insert_p_q = Some ''p.q''"
  by (simp add: IdentityKey_def IdentityValues_def ex_insert_p_q_def genKey_def fmt_v_def)

text \<open>
  Claim C10. \<open>genKey\<close> is not injective: the one value \<open>"a.b"\<close> and the two values
  \<open>"a"\<close>, \<open>"b"\<close> have the same key, and so have the two-column identities
  \<open>("a.b", "c")\<close> and \<open>("a", "b.c")\<close> of two different rows of one table. Row changes
  of these two rows have equal identity keys, and \<open>Reduce\<close> coalesces them: reducing
  the UPDATE of the row \<open>("a", "b.c")\<close> with the earlier INSERT of the row
  \<open>("a.b", "c")\<close> replaces the UPDATE's values before the change by those of the INSERT
  (none) and recomputes its type, so that the INSERT of the one row is absorbed into the
  change of the other; likewise the DELETE of the one row absorbs the INSERT of the
  other. An INSERT of a row with a different key is refused as a mismatch.
\<close>

theorem genKey_not_injective:
  "genKey [VStr ''a.b''] = genKey [VStr ''a'', VStr ''b'']
   \<and> [VStr ''a.b''] \<noteq> [VStr ''a'', VStr ''b'']
   \<and> genKey [VStr ''a.b'', VStr ''c''] = genKey [VStr ''a'', VStr ''b.c'']
   \<and> \<not> inj genKey
   \<and> IdentityValues ex_insert_ab_c = Some ([], [VStr ''a.b'', VStr ''c''])
   \<and> IdentityValues ex_update_a_bc = Some ([VStr ''a'', VStr ''b.c''], [VStr ''a'', VStr ''b.c''])
   \<and> IdentityKey ex_insert_ab_c = Some ''a.b.c''
   \<and> IdentityKey ex_update_a_bc = Some ''a.b.c''
   \<and> IdentityKey ex_delete_a_bc = Some ''a.b.c''
   \<and> Reduce calculateType ex_update_a_bc ex_insert_ab_c =
         Inr (calculateType
                \<lparr>preValues = None, postValues = Some [VStr ''a'', VStr ''b.c'', VStr ''z''],
                 tp = RowChangeUpdate, UniqueNotNullIdx = Some [0, 1]\<rparr>)
   \<and> Reduce calculateType ex_delete_a_bc ex_insert_ab_c = Inr ex_delete_a_bc
   \<and> Reduce calculateType ex_update_a_bc ex_insert_p_q = Inl ErrReduceIdentityKeyNotMatch"
proof -
  have k: "genKey [VStr ''a.b''] = genKey [VStr ''a'', VStr ''b'']"
    by (simp add: genKey_def fmt_v_def)
  have n: "[VStr ''a.b''] \<noteq> [VStr ''a'', VStr ''b'']" by simp
  have k2: "genKey [VStr ''a.b'', VStr ''c''] = genKey [VStr ''a'', VStr ''b.c'']"
    by (simp add: genKey_def fmt_v_def)
  have ni: "\<not> inj genKey" using k n by (auto dest: injD)
  have r1: "Reduce calculateType ex_update_a_bc ex_insert_ab_c =
         Inr (calculateType
                \<lparr>preValues = None, postValues = Some [VStr ''a'', VStr ''b.c'', VStr ''z''],
                 tp = RowChangeUpdate, UniqueNotNullIdx = Some [0, 1]\<rparr>)"
    by (simp add: Reduce_def IdentityKey_ex_update_a_bc IdentityKey_ex_insert_ab_c)
      (simp add: ex_update_a_bc_def ex_insert_ab_c_def)
  have r2: "Reduce calculateType ex_delete_a_bc ex_insert_ab_c = Inr ex_delete_a_bc"
    by (simp add: Reduce_def IdentityKey_ex_delete_a_bc IdentityKey_ex_insert_ab_c)
      (simp add: ex_delete_a_bc_def ex_insert_ab_c_def)
  have r3: "Reduce calculateType ex_update_a_bc ex_insert_p_q = Inl ErrReduceIdentityKeyNotMatch"
    by (simp add: Reduce_def IdentityKey_ex_update_a_bc IdentityKey_ex_insert_p_q)
  from k n k2 ni IdentityValues_ex_insert_ab_c IdentityValues_ex_update_a_bc
    IdentityKey_ex_insert_ab_c IdentityKey_ex_update_a_bc IdentityKey_ex_delete_a_bc r1 r2 r3
  show ?thesis by blast
qed

section \<open>Table actor: dispatch of a batch of messages\<close>

lemma Poll_loop_stopped: "stopped t \<Longrightarrow> Poll_loop H t msgs = Some t"
  by (cases msgs) simp_all

lemma stopped_stop: "stopped (stop e t)"
  by (simp add: stop_def)

lemma Poll_loop_after_Stop:
  assumes "Tp m = TypeStop"
  shows "Poll_loop H t (m # post) = Poll_loop H t [m]"
proof (cases "stopped t")
  case True
  then show ?thesis by simp
next
  case False
  have s: "stopped (Poll_switch H t m)"
    using assms by (simp add: Poll_switch_def stopped_stop)
  show ?thesis
  proof (cases "tryRun_nodes (nodes (Poll_switch H t m)) (pipeline (Poll_switch H t m))")
    case None
    with False show ?thesis by (simp add: Let_def)
  next
    case (Some r)
    obtain ns w where r: "r = (ns, w)" by (cases r)
    have "stopped (Poll_switch H t m\<lparr>nodes := ns, pipeline := w\<rparr>)" using s by simp
    then have "Poll_loop H (Poll_switch H t m\<lparr>nodes := ns, pipeline := w\<rparr>) post
        = Some (Poll_switch H t m\<lparr>nodes := ns, pipeline := w\<rparr>)"
      by (rule Poll_loop_stopped)
    with False Some r show ?thesis by (simp add: Let_def)
  qed
qed

lemma Poll_loop_Stop_cuts:
  "Tp m = TypeStop \<Longrightarrow> Poll_loop H t (pre @ m # post) = Poll_loop H t (pre @ [m])"
proof (induction pre arbitrary: t)
  case Nil
  then show ?case using Poll_loop_after_Stop [of m H t post] by simp
next
  case (Cons a pre)
  then show ?case by (simp add: Let_def split: option.splits)
qed

lemma Poll_loop_single:
  "\<not> stopped t \<Longrightarrow> Poll_loop H t [m] = Some t' \<Longrightarrow>
     \<exists>ns w. tryRun_nodes (nodes (Poll_switch H t m)) (pipeline (Poll_switch H t m)) = Some (ns, w)
           \<and> t' = Poll_switch H t m\<lparr>nodes := ns, pipeline := w\<rparr>"
  by (auto simp add: Let_def split: option.splits)

lemma Poll_loop_Stop_stops:
  "Tp m = TypeStop \<Longrightarrow> Poll_loop H t (pre @ [m]) = Some t' \<Longrightarrow> stopped t'"
proof (induction pre arbitrary: t)
  case Nil
  show ?case
  proof (cases "stopped t")
    case True
    with Nil show ?thesis by simp
  next
    case False
    from Nil have "Poll_loop H t [m] = Some t'" by simp
    from Poll_loop_single [OF False this] obtain ns w where
      "t' = Poll_switch H t m\<lparr>nodes := ns, pipeline := w\<rparr>" by auto
    then show ?thesis using Nil by (simp add: Poll_switch_def stopped_stop)
  qed
next
  case (Cons a pre)
  show ?case
  proof (cases "stopped t")
    case True
    with Cons.prems show ?thesis by simp
  next
    case False
    with Cons.prems obtain t1 where "Poll_loop H t1 (pre @ [m]) = Some t'"
      by (auto simp add: Let_def split: option.splits)
    with Cons.IH Cons.prems show ?thesis by blast
  qed
qed

lemma Poll_switch_Tick: "Tp m = TypeTick \<Longrightarrow> Poll_switch H t m = t"
  by (simp add: Poll_switch_def)

lemma Poll_switch_Barrier:
  "Tp m = TypeBarrier \<Longrightarrow>
     Poll_switch H t m =
       (case H (pipeline t) m of
          (None, w) \<Rightarrow> t\<lparr>pipeline := w\<rparr>
        | (Some e, w) \<Rightarrow> stop (Some e) (t\<lparr>pipeline := w\<rparr>))"
  by (simp add: Poll_switch_def)

lemma Poll_returns_not_stopped:
  "Poll H t msgs = Some (t', b) \<Longrightarrow> b = (\<not> stopped t')"
  by (auto simp add: Poll_def Let_def split: option.splits)

lemma tryRun_keeps_node:
  "tryRun n w = Some y \<Longrightarrow> fst y = n\<lparr>eventStash := eventStash (fst y)\<rparr>"
proof (erule tryRun.raw_induct
    [where P = "\<lambda>n w y. fst y = n\<lparr>eventStash := eventStash (fst y)\<rparr>", rotated])
  fix f :: "('a, 'b) node \<Rightarrow> 'b \<Rightarrow> (('a, 'b) node \<times> 'b) option" and n w y
  assume IH: "\<And>n w y. f n w = Some y \<Longrightarrow> fst y = n\<lparr>eventStash := eventStash (fst y)\<rparr>"
    and eq: "(case if eventStash n = None then messageFetcher n w else (eventStash n, w) of
               (None, w1) \<Rightarrow> Some (n\<lparr>eventStash := None\<rparr>, w1)
             | (Some m, w1) \<Rightarrow>
                 (case messageSender n w1 m of
                    (sent, w2) \<Rightarrow>
                      if sent then f (n\<lparr>eventStash := None\<rparr>) w2
                      else Some (n\<lparr>eventStash := Some m\<rparr>, w2))) = Some y"
  show "fst y = n\<lparr>eventStash := eventStash (fst y)\<rparr>"
  proof (cases "if eventStash n = None then messageFetcher n w else (eventStash n, w)")
    case (Pair s w1)
    show ?thesis
    proof (cases s)
      case None
      with Pair eq show ?thesis by auto
    next
      case (Some m)
      obtain sent w2 where ms: "messageSender n w1 m = (sent, w2)"
        by (cases "messageSender n w1 m")
      show ?thesis
      proof (cases sent)
        case True
        with Pair Some ms eq have "f (n\<lparr>eventStash := None\<rparr>) w2 = Some y" by simp
        from IH [OF this] show ?thesis by simp
      next
        case False
        with Pair Some ms eq show ?thesis by auto
      qed
    qed
  qed
qed

lemma tryRun_nodes_returns: "nodes_return ns \<Longrightarrow> \<exists>r. tryRun_nodes ns w = Some r"
proof (induction ns arbitrary: w)
  case Nil
  show ?case by simp
next
  case (Cons n ns)
  from Cons.prems have "\<forall>s w. tryRun (n\<lparr>eventStash := s\<rparr>) w \<noteq> None"
    by (simp add: nodes_return_def)
  then have "tryRun (n\<lparr>eventStash := eventStash n\<rparr>) w \<noteq> None" by blast
  then obtain n1 w1 where r: "tryRun n w = Some (n1, w1)" by auto
  from Cons.prems have "nodes_return ns" by (simp add: nodes_return_def)
  from Cons.IH [OF this, of w1] obtain ns1 w2 where "tryRun_nodes ns w1 = Some (ns1, w2)" by auto
  with r show ?case by simp
qed

lemma tryRun_nodes_keeps_return:
  "tryRun_nodes ns w = Some (ns', w') \<Longrightarrow> nodes_return ns \<Longrightarrow> nodes_return ns'"
proof (induction ns arbitrary: w ns' w')
  case Nil
  then show ?case by simp
next
  case (Cons n ns)
  from Cons.prems(1) obtain n1 w1 ns1 where
    r: "tryRun n w = Some (n1, w1)" and rs: "tryRun_nodes ns w1 = Some (ns1, w')"
    and ns': "ns' = n1 # ns1"
    by (auto split: option.splits)
  from tryRun_keeps_node [OF r] have n1: "n1 = n\<lparr>eventStash := eventStash n1\<rparr>" by simp
  have u: "\<And>s. n1\<lparr>eventStash := s\<rparr> = n\<lparr>eventStash := s\<rparr>"
    by (subst n1) simp
  from Cons.prems(2) have h: "\<forall>s w. tryRun (n\<lparr>eventStash := s\<rparr>) w \<noteq> None"
    and t: "nodes_return ns"
    by (simp_all add: nodes_return_def)
  from Cons.IH [OF rs t] have "nodes_return ns1" .
  with h u ns' show ?case by (simp add: nodes_return_def)
qed

lemma nodes_Poll_switch: "nodes (Poll_switch H t m) = nodes t"
  by (simp add: Poll_switch_def stop_def split: messageType.splits prod.splits option.splits)

lemma Poll_loop_returns: "nodes_return (nodes t) \<Longrightarrow> \<exists>t'. Poll_loop H t msgs = Some t'"
proof (induction msgs arbitrary: t)
  case Nil
  show ?case by simp
next
  case (Cons m msgs)
  show ?case
  proof (cases "stopped t")
    case True
    then show ?thesis by simp
  next
    case False
    let ?t1 = "Poll_switch H t m"
    from Cons.prems have nr: "nodes_return (nodes ?t1)" by (simp add: nodes_Poll_switch)
    from tryRun_nodes_returns [OF nr, of "pipeline ?t1"] obtain ns w where
      r: "tryRun_nodes (nodes ?t1) (pipeline ?t1) = Some (ns, w)" by auto
    from tryRun_nodes_keeps_return [OF r nr] have "nodes_return ns" .
    then have "nodes_return (nodes (?t1\<lparr>nodes := ns, pipeline := w\<rparr>))" by simp
    from Cons.IH [OF this] obtain t' where
      "Poll_loop H (?t1\<lparr>nodes := ns, pipeline := w\<rparr>) msgs = Some t'" by auto
    with False r show ?thesis by (simp add: Let_def)
  qed
qed

lemma Poll_returns: "nodes_return (nodes t) \<Longrightarrow> \<exists>t' b. Poll H t msgs = Some (t', b)"
  using Poll_loop_returns [of t H msgs] by (auto simp add: Poll_def Let_def)

lemma Poll_loop_Tick:
  "Tp m = TypeTick \<Longrightarrow> \<not> stopped t \<Longrightarrow>
     Poll_loop H t (m # msgs) =
       (case tryRun_nodes (nodes t) (pipeline t) of
          None \<Rightarrow> None
        | Some (ns, w) \<Rightarrow> Poll_loop H (t\<lparr>nodes := ns, pipeline := w\<rparr>) msgs)"
  by (simp add: Poll_switch_Tick Let_def)

lemma Poll_loop_Stop:
  assumes "Tp m = TypeStop" and "\<not> stopped t"
  shows "Poll_loop H t (m # msgs) =
       (case tryRun_nodes (nodes t) (pipeline t) of
          None \<Rightarrow> None
        | Some (ns, w) \<Rightarrow>
            Some (t\<lparr>stopped := True, err := None, cancelled := True, nodes := ns, pipeline := w\<rparr>))"
proof -
  from assms have sw: "Poll_switch H t m = t\<lparr>stopped := True, err := None, cancelled := True\<rparr>"
    by (simp add: Poll_switch_def stop_def)
  show ?thesis
  proof (cases "tryRun_nodes (nodes t) (pipeline t)")
    case None
    with assms(2) sw show ?thesis by (simp add: Let_def)
  next
    case (Some r)
    obtain ns w where r: "r = (ns, w)" by (cases r)
    let ?t1 = "t\<lparr>stopped := True, err := None, cancelled := True, nodes := ns, pipeline := w\<rparr>"
    have "Poll_loop H ?t1 msgs = Some ?t1" by (rule Poll_loop_stopped) simp
    with assms(2) sw Some r show ?thesis by (simp add: Let_def)
  qed
qed

lemma Poll_loop_Barrier:
  assumes "Tp m = TypeBarrier" and "\<not> stopped t"
  shows "Poll_loop H t (m # msgs) =
       (case H (pipeline t) m of
          (None, w) \<Rightarrow>
            (case tryRun_nodes (nodes t) w of
               None \<Rightarrow> None
             | Some (ns, w') \<Rightarrow> Poll_loop H (t\<lparr>nodes := ns, pipeline := w'\<rparr>) msgs)
        | (Some e, w) \<Rightarrow>
            (case tryRun_nodes (nodes t) w of
               None \<Rightarrow> None
             | Some (ns, w') \<Rightarrow>
                 Some (t\<lparr>stopped := True, err := Some e, cancelled := True,
                         nodes := ns, pipeline := w'\<rparr>)))"
proof (cases "H (pipeline t) m")
  case (Pair res w)
  show ?thesis
  proof (cases res)
    case None
    with Pair assms have sw: "Poll_switch H t m = t\<lparr>pipeline := w\<rparr>"
      by (simp add: Poll_switch_def)
    with assms(2) Pair None show ?thesis
      by (simp add: Let_def split: option.splits)
  next
    case (Some e)
    with Pair assms have sw: "Poll_switch H t m
        = t\<lparr>pipeline := w, stopped := True, err := Some e, cancelled := True\<rparr>"
      by (simp add: Poll_switch_def stop_def)
    show ?thesis
    proof (cases "tryRun_nodes (nodes t) w")
      case None
      with assms(2) sw Pair Some show ?thesis by (simp add: Let_def)
    next
      case sm: (Some r)
      obtain ns w' where r: "r = (ns, w')" by (cases r)
      let ?t1 = "t\<lparr>stopped := True, err := Some e, cancelled := True, nodes := ns, pipeline := w'\<rparr>"
      have "Poll_loop H ?t1 msgs = Some ?t1" by (rule Poll_loop_stopped) simp
      with assms(2) sw Pair Some sm r show ?thesis by (simp add: Let_def)
    qed
  qed
qed

lemma Poll_of_loop:
  "Poll H t msgs =
     (case Poll_loop H t msgs of None \<Rightarrow> None | Some t1 \<Rightarrow> Some (checkError t1, \<not> stopped t1))"
  by (simp add: Poll_def Let_def checkError_def split: option.splits)

lemma Poll_Stop_cuts:
  assumes "Tp m = TypeStop"
  shows "Poll H t (pre @ m # post) = Poll H t (pre @ [m])"
  by (simp only: Poll_def Poll_loop_Stop_cuts [OF assms, of H t pre post])

text \<open>
  Claim C9. \<open>Poll\<close> dispatches the batch in order, one message after the other, and
  after each dispatched message runs \<open>tryRun\<close> on every node. An actor that is stopped
  dispatches nothing. A Stop message marks the actor stopped and ends the batch: the
  messages after it have no effect on the result. A Tick message changes nothing by
  itself: it contributes only the pass over the nodes. A Barrier message is handed to the
  sink node's handler, the pass over the nodes starts from the pipeline the handler
  leaves, and an error of the handler stops the actor with that error. The flag returned
  by \<open>Poll\<close> is true exactly when the actor is not stopped at the end, and \<open>Poll\<close>
  returns whenever the \<open>tryRun\<close> loop of each node does.
\<close>

theorem Poll_dispatches_batch:
  assumes "Tp stopMsg = TypeStop" and "Tp tickMsg = TypeTick" and "Tp barrierMsg = TypeBarrier"
  shows "Poll H t msgs =
           (case Poll_loop H t msgs of
              None \<Rightarrow> None
            | Some t1 \<Rightarrow> Some (checkError t1, \<not> stopped t1))
       \<and> Poll_loop H t [] = Some t
       \<and> (stopped t \<longrightarrow> Poll_loop H t msgs = Some t)
       \<and> (\<not> stopped t \<longrightarrow>
            Poll_loop H t (stopMsg # msgs) =
              (case tryRun_nodes (nodes t) (pipeline t) of
                 None \<Rightarrow> None
               | Some (ns, w) \<Rightarrow>
                   Some (t\<lparr>stopped := True, err := None, cancelled := True,
                           nodes := ns, pipeline := w\<rparr>)))
       \<and> Poll H t (pre @ stopMsg # post) = Poll H t (pre @ [stopMsg])
       \<and> (\<forall>t' b. Poll H t (pre @ [stopMsg]) = Some (t', b) \<longrightarrow> stopped t' \<and> \<not> b)
       \<and> (\<not> stopped t \<longrightarrow>
            Poll_loop H t (tickMsg # msgs) =
              (case tryRun_nodes (nodes t) (pipeline t) of
                 None \<Rightarrow> None
               | Some (ns, w) \<Rightarrow> Poll_loop H (t\<lparr>nodes := ns, pipeline := w\<rparr>) msgs))
       \<and> (\<not> stopped t \<longrightarrow>
            Poll_loop H t (barrierMsg # msgs) =
              (case H (pipeline t) barrierMsg of
                 (None, w) \<Rightarrow>
                   (case tryRun_nodes (nodes t) w of
                      None \<Rightarrow> None
                    | Some (ns, w') \<Rightarrow> Poll_loop H (t\<lparr>nodes := ns, pipeline := w'\<rparr>) msgs)
               | (Some e, w) \<Rightarrow>
                   (case tryRun_nodes (nodes t) w of
                      None \<Rightarrow> None
                    | Some (ns, w') \<Rightarrow>
                        Some (t\<lparr>stopped := True, err := Some e, cancelled := True,
                                nodes := ns, pipeline := w'\<rparr>))))
       \<and> (\<forall>t' b. Poll H t msgs = Some (t', b) \<longrightarrow> b = (\<not> stopped t'))
       \<and> (nodes_return (nodes t) \<longrightarrow> (\<exists>t' b. Poll H t msgs = Some (t', b)))"
proof -
  have stops: "\<forall>t' b. Poll H t (pre @ [stopMsg]) = Some (t', b) \<longrightarrow> stopped t' \<and> \<not> b"
  proof (intro allI impI)
    fix t' b
    assume p: "Poll H t (pre @ [stopMsg]) = Some (t', b)"
    then obtain t1 where l: "Poll_loop H t (pre @ [stopMsg]) = Some t1"
      and t': "t' = checkError t1" and b: "b = (\<not> stopped t1)"
      by (auto simp add: Poll_of_loop split: option.splits)
    from Poll_loop_Stop_stops [OF assms(1) l] have "stopped t1" .
    with t' b show "stopped t' \<and> \<not> b"
      by (simp add: checkError_def split: option.splits)
  qed
  have barrier: "\<not> stopped t \<longrightarrow>
            Poll_loop H t (barrierMsg # msgs) =
              (case H (pipeline t) barrierMsg of
                 (None, w) \<Rightarrow>
                   (case tryRun_nodes (nodes t) w of
                      None \<Rightarrow> None
                    | Some (ns, w') \<Rightarrow> Poll_loop H (t\<lparr>nodes := ns, pipeline := w'\<rparr>) msgs)
               | (Some e, w) \<Rightarrow>
                   (case tryRun_nodes (nodes t) w of
                      None \<Rightarrow> None
                    | Some (ns, w') \<Rightarrow>
                        Some (t\<lparr>stopped := True, err := Some e, cancelled := True,
                                nodes := ns, pipeline := w'\<rparr>)))"
    using Poll_loop_Barrier [OF assms(3), of t H msgs] by blast
  have stop: "\<not> stopped t \<longrightarrow>
            Poll_loop H t (stopMsg # msgs) =
              (case tryRun_nodes (nodes t) (pipeline t) of
                 None \<Rightarrow> None
               | Some (ns, w) \<Rightarrow>
                   Some (t\<lparr>stopped := True, err := None, cancelled := True,
                           nodes := ns, pipeline := w\<rparr>))"
    using Poll_loop_Stop [OF assms(1), of t H msgs] by blast
  have tick: "\<not> stopped t \<longrightarrow>
            Poll_loop H t (tickMsg # msgs) =
              (case tryRun_nodes (nodes t) (pipeline t) of
                 None \<Rightarrow> None
               | Some (ns, w) \<Rightarrow> Poll_loop H (t\<lparr>nodes := ns, pipeline := w\<rparr>) msgs)"
    using Poll_loop_Tick [OF assms(2), of t H msgs] by blast
  have flag: "\<forall>t' b. Poll H t msgs = Some (t', b) \<longrightarrow> b = (\<not> stopped t')"
    using Poll_returns_not_stopped [of H t msgs] by blast
  have ret: "nodes_return (nodes t) \<longrightarrow> (\<exists>t' b. Poll H t msgs = Some (t', b))"
    using Poll_returns [of t H msgs] by blast
  have already: "stopped t \<longrightarrow> Poll_loop H t msgs = Some t"
    using Poll_loop_stopped [of t H msgs] by blast
  have empty: "Poll_loop H t [] = Some t" by simp
  note cut = Poll_Stop_cuts [OF assms(1), of H t pre post]
  show ?thesis
    by (rule conjI [OF Poll_of_loop conjI [OF empty conjI [OF already conjI [OF stop
        conjI [OF cut conjI [OF stops conjI [OF tick conjI [OF barrier
        conjI [OF flag ret]]]]]]]]])
qed

lemma tryRun_fetch_nothing:
  assumes "eventStash n = None" and "messageFetcher n w = (None, w1)"
  shows "tryRun n w = Some (n, w1)"
proof -
  from assms(1) have e: "n\<lparr>eventStash := None\<rparr> = n" by (cases n) simp
  show ?thesis by (subst tryRun.simps) (simp add: assms e)
qed

lemma tryRun_fetch_sent:
  assumes "eventStash n = None" and "messageFetcher n w = (Some m, w1)"
    and "messageSender n w1 m = (True, w2)"
  shows "tryRun n w = tryRun n w2"
proof -
  from assms(1) have e: "n\<lparr>eventStash := None\<rparr> = n" by (cases n) simp
  show ?thesis by (subst tryRun.simps) (simp add: assms e)
qed

lemma tryRun_stash_sent:
  assumes "eventStash n = Some m" and "messageSender n w m = (True, w2)"
  shows "tryRun n w = tryRun (n\<lparr>eventStash := None\<rparr>) w2"
  using assms by (subst tryRun.simps) simp

lemma tryRun_ex_node: "tryRun ex_node ((ch, out), bs) = Some (ex_node, (([], out @ ch), bs))"
proof (induction ch arbitrary: out)
  case Nil
  show ?case
    by (rule tryRun_fetch_nothing [THEN trans])
      (simp_all add: ex_node_def ChannelMessageFetcher_TryGetMessage_def)
next
  case (Cons m ch)
  have "tryRun ex_node ((m # ch, out), bs) = tryRun ex_node ((ch, out @ [m]), bs)"
    by (rule tryRun_fetch_sent [where m = m and ?w1.0 = "((ch, out), bs)"])
      (simp_all add: ex_node_def ChannelMessageFetcher_TryGetMessage_def)
  with Cons.IH [of "out @ [m]"] show ?case by simp
qed

lemma nodes_return_ex_node: "nodes_return [ex_node]"
proof -
  have "tryRun (ex_node\<lparr>eventStash := s\<rparr>) w \<noteq> None" for s w
  proof (cases s)
    case None
    have "ex_node\<lparr>eventStash := None\<rparr> = ex_node" by (simp add: ex_node_def)
    with None tryRun_ex_node [of "fst (fst w)" "snd (fst w)" "snd w"] show ?thesis by simp
  next
    case (Some m)
    have "tryRun (ex_node\<lparr>eventStash := Some m\<rparr>) w
        = tryRun (ex_node\<lparr>eventStash := Some m\<rparr>\<lparr>eventStash := None\<rparr>)
            ((fst (fst w), snd (fst w) @ [m]), snd w)"
      by (rule tryRun_stash_sent [where m = m]) (simp_all add: ex_node_def)
    also have "ex_node\<lparr>eventStash := Some m\<rparr>\<lparr>eventStash := None\<rparr> = ex_node"
      by (simp add: ex_node_def)
    finally show ?thesis
      using Some tryRun_ex_node [of "fst (fst w)" "snd (fst w) @ [m]" "snd w"] by simp
  qed
  then show ?thesis by (simp add: nodes_return_def)
qed

lemma Poll_loop_ex_actor:
  "Poll_loop ex_HandleMessages ex_actor [ex_tickMsg, ex_barrierMsg, ex_stopMsg]
     = Some (ex_actor\<lparr>stopped := True, cancelled := True, pipeline := (([], [7, 8]), [100])\<rparr>)"
  by (simp add: ex_actor_def ex_tickMsg_def ex_barrierMsg_def ex_stopMsg_def
      ex_HandleMessages_def Poll_switch_def stop_def tryRun_ex_node Let_def)

theorem Poll_dispatches_batch_witness:
  "Tp ex_stopMsg = TypeStop \<and> Tp ex_tickMsg = TypeTick \<and> Tp ex_barrierMsg = TypeBarrier
   \<and> \<not> stopped ex_actor
   \<and> nodes_return (nodes ex_actor)
   \<and> Poll ex_HandleMessages ex_actor [ex_tickMsg, ex_barrierMsg, ex_stopMsg, ex_tickMsg]
       = Some (ex_actor\<lparr>stopped := True, cancelled := True,
                        pipeline := (([], [7, 8]), [100])\<rparr>, False)
   \<and> Poll ex_HandleMessages ex_actor [ex_barrierMsg]
       = Some (ex_actor\<lparr>pipeline := (([], [7, 8]), [100])\<rparr>, True)
   \<and> Poll ex_HandleMessages_failing ex_actor [ex_barrierMsg, ex_barrierMsg]
       = Some (ex_actor\<lparr>stopped := True, cancelled := True,
                        reported := [ErrExternal ''sink closed''],
                        pipeline := (([], [7, 8]), [])\<rparr>, False)"
proof -
  let ?msgs = "[ex_tickMsg, ex_barrierMsg, ex_stopMsg, ex_tickMsg]"
  let ?end = "ex_actor\<lparr>stopped := True, cancelled := True, pipeline := (([], [7, 8]), [100])\<rparr>"
  have s: "Tp ex_stopMsg = TypeStop" by (simp add: ex_stopMsg_def)
  have k: "Tp ex_tickMsg = TypeTick" by (simp add: ex_tickMsg_def)
  have b: "Tp ex_barrierMsg = TypeBarrier" by (simp add: ex_barrierMsg_def)
  have ns: "\<not> stopped ex_actor" by (simp add: ex_actor_def)
  have nr: "nodes_return (nodes ex_actor)"
    using nodes_return_ex_node by (simp add: ex_actor_def)
  have tr: "tryRun_nodes (nodes ex_actor) ((ch, out), bs) = Some ([ex_node], (([], out @ ch), bs))"
    for ch out bs
    by (simp add: ex_actor_def tryRun_ex_node)
  note th = Poll_dispatches_batch [OF s k b, of ex_HandleMessages ex_actor "[ex_barrierMsg]"
      "[ex_tickMsg, ex_barrierMsg]" "[ex_tickMsg]"]
  note th1 = Poll_dispatches_batch [OF s k b, of ex_HandleMessages ex_actor
      "[ex_tickMsg, ex_barrierMsg, ex_stopMsg]" "[ex_tickMsg, ex_barrierMsg]" "[ex_tickMsg]"]
  from th [THEN conjunct2, THEN conjunct2, THEN conjunct2, THEN conjunct2, THEN conjunct1]
  have cut: "Poll ex_HandleMessages ex_actor ?msgs
      = Poll ex_HandleMessages ex_actor [ex_tickMsg, ex_barrierMsg, ex_stopMsg]"
    by (simp only: append.simps)
  from th1 [THEN conjunct1]
  have "Poll ex_HandleMessages ex_actor [ex_tickMsg, ex_barrierMsg, ex_stopMsg]
      = Some (checkError ?end, \<not> stopped ?end)"
    by (simp only: Poll_loop_ex_actor option.case)
  then have p1: "Poll ex_HandleMessages ex_actor ?msgs = Some (?end, False)"
    using cut by (simp add: checkError_def ex_actor_def)
  have pl: "pipeline ex_actor = (([7, 8], []), [])" by (simp add: ex_actor_def)
  note thb = Poll_dispatches_batch [OF s k b, of ex_HandleMessages ex_actor "[]" "[]" "[]"]
  from thb [THEN conjunct2, THEN conjunct2, THEN conjunct2, THEN conjunct2, THEN conjunct2,
      THEN conjunct2, THEN conjunct2, THEN conjunct1] ns
  have "Poll_loop ex_HandleMessages ex_actor [ex_barrierMsg]
      = Some (ex_actor\<lparr>nodes := [ex_node], pipeline := (([], [7, 8]), [100])\<rparr>)"
    by (simp add: pl tr ex_HandleMessages_def ex_barrierMsg_def)
  then have p2: "Poll ex_HandleMessages ex_actor [ex_barrierMsg]
       = Some (ex_actor\<lparr>pipeline := (([], [7, 8]), [100])\<rparr>, True)"
    by (simp add: Poll_of_loop checkError_def ex_actor_def)
  note thf = Poll_dispatches_batch [OF s k b, of ex_HandleMessages_failing ex_actor
      "[ex_barrierMsg]" "[]" "[]"]
  from thf [THEN conjunct2, THEN conjunct2, THEN conjunct2, THEN conjunct2, THEN conjunct2,
      THEN conjunct2, THEN conjunct2, THEN conjunct1] ns
  have "Poll_loop ex_HandleMessages_failing ex_actor [ex_barrierMsg, ex_barrierMsg]
      = Some (ex_actor\<lparr>stopped := True, err := Some (ErrExternal ''sink closed''),
                       cancelled := True, nodes := [ex_node], pipeline := (([], [7, 8]), [])\<rparr>)"
    by (simp add: pl tr ex_HandleMessages_failing_def)
  then have p3: "Poll ex_HandleMessages_failing ex_actor [ex_barrierMsg, ex_barrierMsg]
       = Some (ex_actor\<lparr>stopped := True, cancelled := True,
                        reported := [ErrExternal ''sink closed''],
                        pipeline := (([], [7, 8]), [])\<rparr>, False)"
    by (simp add: Poll_of_loop checkError_def ex_actor_def)
  from s k b ns nr p1 p2 p3 show ?thesis by blast
qed

section \<open>Relay: the event loop\<close>

lemma handleEvents_loop_append:
  "handleEvents_loop cfg st (xs @ ys) =
     (case handleEvents_loop cfg st xs of
        (Some r, st1, acts) \<Rightarrow> (Some r, st1, acts)
      | (None, st1, acts) \<Rightarrow>
          (case handleEvents_loop cfg st1 ys of (r, st2, acts2) \<Rightarrow> (r, st2, acts @ acts2)))"
proof (induction xs arbitrary: st)
  case Nil
  show ?case by (simp split: prod.splits)
next
  case (Cons x xs)
  show ?case
  proof (cases "handleEvents_iter cfg st x")
    case (fields ctl st1 acts)
    show ?thesis
    proof (cases ctl)
      case Continue
      with fields Cons.IH [of st1] show ?thesis
        by (simp split: prod.splits option.splits)
    next
      case (Return r)
      with fields show ?thesis by simp
    qed
  qed
qed

lemma preprocessEvent_Rotate:
  "Event e = RotateEvent p n \<Longrightarrow> \<not> Ignore (preprocessEvent isDDL e)"
  by (simp add: preprocessEvent_def Let_def)

lemma handleEvents_iter_fake_rotate_new_server:
  assumes "GetEvent env = Inr e"
    and "Event e = RotateEvent p n"
    and "IsFakeRotateEvent cfg (Header e)"
    and "isNewServer env = Inr True"
  shows "\<exists>st1. handleEvents_iter cfg st env
           = (Return (Some ErrRotateEventWithDifferentServerID), st1, [])"
  using assms preprocessEvent_Rotate [of e p n "CheckIsDDL cfg"]
  by (simp add: handleEvents_iter_def Let_def)

lemma handleEvents_write_firstEvent:
  "handleEvents_write cfg env e tResult st = (ctl, st', acts) \<Longrightarrow> firstEvent st' = firstEvent st"
  by (auto simp add: handleEvents_write_def saveAndFlushMeta_def Let_def
      split: sum.splits if_splits option.splits prod.splits)

text \<open>
  Claim C6. When the loop is still running after the iterations \<open>envs\<close> and the next
  event received is a fake rotate (a rotate event that \<open>utils.IsFakeRotateEvent\<close>
  accepts) while \<open>isNewServer\<close> finds that the upstream's server UUID is not the one
  recorded in the metadata, \<open>handleEvents\<close> returns
  \<open>ErrRotateEventWithDifferentServerID\<close>. Nothing is done for that event: the calls made
  are those of the earlier iterations, so the event is not written, and nothing received
  later is looked at.
\<close>

theorem handleEvents_fake_rotate_different_server:
  assumes "handleEvents cfg metaPos metaGTID parseEmpty envs = (None, acts)"
    and "GetEvent env = Inr e"
    and "Event e = RotateEvent p n"
    and "IsFakeRotateEvent cfg (Header e)"
    and "isNewServer env = Inr True"
  shows "handleEvents cfg metaPos metaGTID parseEmpty (envs @ env # rest)
           = (Some (Some ErrRotateEventWithDifferentServerID), acts)"
proof -
  from assms(1) obtain g where
    g: "(case metaGTID of Some g \<Rightarrow> Inr g | None \<Rightarrow> parseEmpty) = Inr g"
    by (cases "case metaGTID of Some g \<Rightarrow> Inr g | None \<Rightarrow> parseEmpty")
      (simp_all add: handleEvents_def)
  let ?st0 = "\<lparr>lastPos = metaPos, lastGTID = g, firstEvent = True, eventIndex = 0\<rparr>"
  from assms(1) g obtain st1 where
    l: "handleEvents_loop cfg ?st0 envs = (None, st1, acts)"
    by (auto simp add: handleEvents_def split: prod.splits)
  from handleEvents_iter_fake_rotate_new_server [OF assms(2-5), of st1] obtain st2 where
    i: "handleEvents_iter cfg st1 env
          = (Return (Some ErrRotateEventWithDifferentServerID), st2, [])"
    by blast
  have "handleEvents_loop cfg ?st0 (envs @ env # rest)
          = (Some (Some ErrRotateEventWithDifferentServerID), st2, acts)"
    by (simp add: handleEvents_loop_append l i)
  with g show ?thesis by (simp add: handleEvents_def)
qed

lemma handleEvents_iter_first:
  assumes "handleEvents_iter cfg st env = (ctl, st', acts)" and "firstEvent st"
  shows "(no_write acts \<and> (ctl = Continue \<longrightarrow> acts = [] \<and> firstEvent st'))
       \<or> starts_flushed acts"
proof (cases "GetEvent env")
  case (Inl rerr)
  with assms show ?thesis
    by (auto simp add: handleEvents_iter_def no_write_def split: if_splits)
next
  case (Inr e)
  let ?tR = "preprocessEvent (CheckIsDDL cfg) e"
  let ?st1 = "if length (NextLogName ?tR) > 0 \<and> NextLogName ?tR > Name (lastPos st)
              then st\<lparr>lastPos := \<lparr>Name = NextLogName ?tR, Pos = LogPos ?tR\<rparr>\<rparr> else st"
  have f1: "firstEvent ?st1" using assms(2) by simp
  show ?thesis
  proof (cases "Ignore ?tR")
    case True
    with assms(1) Inr f1 show ?thesis
      by (auto simp add: handleEvents_iter_def Let_def no_write_def split: if_splits)
  next
    case False
    let ?isNew = "if (case Event e of RotateEvent p n \<Rightarrow> True | _ \<Rightarrow> False)
                     \<and> IsFakeRotateEvent cfg (Header e)
                  then isNewServer env else Inr False"
    show ?thesis
    proof (cases ?isNew)
      case (Inl err2)
      with assms(1) Inr False show ?thesis
        by (auto simp add: handleEvents_iter_def Let_def no_write_def)
    next
      case isn: (Inr isNew)
      show ?thesis
      proof (cases isNew)
        case True
        with isn assms(1) Inr False show ?thesis
          by (auto simp add: handleEvents_iter_def Let_def no_write_def)
      next
        case nf: False
        show ?thesis
        proof (cases "firstSave env")
          case (Some es)
          with nf isn assms(1) Inr False f1 show ?thesis
            by (auto simp add: handleEvents_iter_def Let_def no_write_def saveAndFlushMeta_def)
        next
          case None
          show ?thesis
          proof (cases "firstFlush env")
            case (Some ef)
            with None nf isn assms(1) Inr False f1 show ?thesis
              by (auto simp add: handleEvents_iter_def Let_def no_write_def saveAndFlushMeta_def)
          next
            case fl: None
            with None nf isn assms(1) Inr False f1 have "starts_flushed acts"
              by (auto simp add: handleEvents_iter_def Let_def starts_flushed_def
                  saveAndFlushMeta_def split: prod.splits)
            then show ?thesis ..
          qed
        qed
      qed
    qed
  qed
qed

lemma handleEvents_loop_first:
  "handleEvents_loop cfg st envs = (r, st', acts) \<Longrightarrow> firstEvent st \<Longrightarrow>
     no_write acts \<or> starts_flushed acts"
proof (induction envs arbitrary: st r st' acts)
  case Nil
  then show ?case by (simp add: no_write_def)
next
  case (Cons env envs)
  obtain ctl st1 acts1 where i: "handleEvents_iter cfg st env = (ctl, st1, acts1)"
    by (cases "handleEvents_iter cfg st env")
  from handleEvents_iter_first [OF i Cons.prems(2)]
  consider (quiet) "no_write acts1" "ctl = Continue \<longrightarrow> acts1 = [] \<and> firstEvent st1"
    | (flushed) "starts_flushed acts1"
    by blast
  then show ?case
  proof cases
    case quiet
    show ?thesis
    proof (cases ctl)
      case (Return r1)
      with i Cons.prems(1) quiet(1) show ?thesis by simp
    next
      case Continue
      obtain r2 st2 acts2 where l: "handleEvents_loop cfg st1 envs = (r2, st2, acts2)"
        by (cases "handleEvents_loop cfg st1 envs")
      from Continue quiet(2) have e: "acts1 = []" and f: "firstEvent st1" by simp_all
      from Cons.IH [OF l f] have "no_write acts2 \<or> starts_flushed acts2" .
      moreover from i Continue l e Cons.prems(1) have "acts = acts2" by simp
      ultimately show ?thesis by simp
    qed
  next
    case flushed
    from i Cons.prems(1) obtain acts2 where "acts = acts1 @ acts2"
      by (cases ctl) (auto split: prod.splits)
    with flushed have "starts_flushed acts" by (auto simp add: starts_flushed_def)
    then show ?thesis ..
  qed
qed

lemma starts_flushed_before_write:
  assumes "starts_flushed acts" and "acts = pre @ AWriteEvent e wr # post"
  shows "\<exists>pos gset rest. pre = ASaveMeta pos gset None # AFlushMeta None # rest"
proof -
  from assms(1) obtain pos gset rest where
    a: "acts = ASaveMeta pos gset None # AFlushMeta None # rest"
    by (auto simp add: starts_flushed_def)
  show ?thesis
  proof (cases pre)
    case Nil
    with a assms(2) show ?thesis by simp
  next
    case (Cons x pre1)
    show ?thesis
    proof (cases pre1)
      case Nil
      with Cons a assms(2) show ?thesis by simp
    next
      case (Cons y pre2)
      with \<open>pre = x # pre1\<close> a assms(2) show ?thesis by simp
    qed
  qed
qed

lemma no_write_not_write: "no_write (pre @ AWriteEvent e wr # post) \<Longrightarrow> False"
  by (simp add: no_write_def)

text \<open>
  Claim C7. In every run of \<open>handleEvents\<close>, whatever the reader, the writer and the
  metadata store answer and whether or not the loop has returned, each call of
  \<open>writer.WriteEvent\<close> comes after a successful save and a successful flush of the
  metadata: the calls made begin with \<open>meta.Save\<close> and \<open>meta.Flush\<close>, both without
  error, before anything is written.
\<close>

theorem handleEvents_flushes_meta_before_write:
  assumes "handleEvents cfg metaPos metaGTID parseEmpty envs = (r, acts)"
    and "acts = pre @ AWriteEvent e wr # post"
  shows "\<exists>pos gset rest. pre = ASaveMeta pos gset None # AFlushMeta None # rest"
proof (cases "case metaGTID of Some g \<Rightarrow> Inr g | None \<Rightarrow> parseEmpty")
  case (Inl e0)
  with assms show ?thesis by (simp add: handleEvents_def)
next
  case (Inr g)
  let ?st0 = "\<lparr>lastPos = metaPos, lastGTID = g, firstEvent = True, eventIndex = 0\<rparr>"
  from assms(1) Inr obtain st1 where l: "handleEvents_loop cfg ?st0 envs = (r, st1, acts)"
    by (auto simp add: handleEvents_def split: prod.splits)
  have "firstEvent ?st0" by simp
  from handleEvents_loop_first [OF l this] have "no_write acts \<or> starts_flushed acts" .
  then show ?thesis
  proof
    assume "no_write acts"
    with assms(2) no_write_not_write show ?thesis by blast
  next
    assume "starts_flushed acts"
    from starts_flushed_before_write [OF this assms(2)] show ?thesis .
  qed
qed

lemma handleEvents_iter_ex_rotate:
  "handleEvents_iter ex_relayCfg
      \<lparr>lastPos = ex_metaPos, lastGTID = [], firstEvent = True, eventIndex = 0\<rparr> ex_iterEnv_rotate
     = (Continue,
        \<lparr>lastPos = \<lparr>Name = ''mysql-bin.000001'', Pos = 4\<rparr>, lastGTID = [],
         firstEvent = False, eventIndex = Suc 0\<rparr>,
        [ASaveMeta \<lparr>Name = ''mysql-bin.000001'', Pos = 4\<rparr> [] None,
         AFlushMeta None,
         AWriteEvent ex_fake_rotate (Inr (WResult False [])),
         ANotify ex_fake_rotate])"
  by (simp add: handleEvents_iter_def handleEvents_write_def preprocessEvent_def
      saveAndFlushMeta_def tryUpdateActiveRelayLog_def IsFakeRotateEvent_spec_def
      isNewServer_spec_def
      ex_relayCfg_def ex_metaPos_def ex_iterEnv_rotate_def ex_fake_rotate_def
      LOG_EVENT_ARTIFICIAL_F_def FORMAT_DESCRIPTION_EVENT_def ROTATE_EVENT_def Let_def)

lemma handleEvents_iter_ex_xid:
  "handleEvents_iter ex_relayCfg
      \<lparr>lastPos = \<lparr>Name = ''mysql-bin.000001'', Pos = 4\<rparr>, lastGTID = [],
       firstEvent = False, eventIndex = Suc 0\<rparr> ex_iterEnv_xid
     = (Continue,
        \<lparr>lastPos = \<lparr>Name = ''mysql-bin.000001'', Pos = 512\<rparr>, lastGTID = ''3e11fa47:1-101'',
         firstEvent = False, eventIndex = 0\<rparr>,
        [AWriteEvent ex_xid (Inr (WResult False [])),
         ANotify ex_xid,
         ASaveMeta \<lparr>Name = ''mysql-bin.000001'', Pos = 512\<rparr> ''3e11fa47:1-101'' None])"
  by (simp add: handleEvents_iter_def handleEvents_write_def preprocessEvent_def
      saveAndFlushMeta_def tryUpdateActiveRelayLog_def IsFakeRotateEvent_spec_def
      isNewServer_spec_def
      ex_relayCfg_def ex_iterEnv_xid_def ex_xid_def
      LOG_EVENT_ARTIFICIAL_F_def FORMAT_DESCRIPTION_EVENT_def ROTATE_EVENT_def Let_def)

lemma handleEvents_ex_run:
  "handleEvents ex_relayCfg ex_metaPos None (Inr []) [ex_iterEnv_rotate, ex_iterEnv_xid]
     = (None, ex_relayActions)"
  by (simp add: handleEvents_def handleEvents_iter_ex_rotate handleEvents_iter_ex_xid
      ex_relayActions_def)

theorem handleEvents_fake_rotate_different_server_witness:
  "handleEvents ex_relayCfg ex_metaPos None (Inr []) [ex_iterEnv_rotate, ex_iterEnv_xid]
     = (None, ex_relayActions)
   \<and> GetEvent ex_iterEnv_rotate_switched = Inr ex_fake_rotate
   \<and> Event ex_fake_rotate = RotateEvent 4 ''mysql-bin.000001''
   \<and> IsFakeRotateEvent ex_relayCfg (Header ex_fake_rotate)
   \<and> Flags (Header ex_fake_rotate) AND LOG_EVENT_ARTIFICIAL_F \<noteq> 0
   \<and> isNewServer ex_iterEnv_rotate_switched = Inr True
   \<and> handleEvents ex_relayCfg ex_metaPos None (Inr [])
        [ex_iterEnv_rotate, ex_iterEnv_xid, ex_iterEnv_rotate_switched, ex_iterEnv_xid]
      = (Some (Some ErrRotateEventWithDifferentServerID), ex_relayActions)"
proof -
  have g: "GetEvent ex_iterEnv_rotate_switched = Inr ex_fake_rotate"
    by (simp add: ex_iterEnv_rotate_switched_def)
  have r: "Event ex_fake_rotate = RotateEvent 4 ''mysql-bin.000001''"
    by (simp add: ex_fake_rotate_def)
  have f: "IsFakeRotateEvent ex_relayCfg (Header ex_fake_rotate)"
    by (simp add: ex_relayCfg_def ex_fake_rotate_def IsFakeRotateEvent_spec_def
        LOG_EVENT_ARTIFICIAL_F_def)
  have d: "Flags (Header ex_fake_rotate) AND LOG_EVENT_ARTIFICIAL_F \<noteq> 0"
    by (simp add: ex_fake_rotate_def LOG_EVENT_ARTIFICIAL_F_def)
  have u: "isNewServer ex_iterEnv_rotate_switched = Inr True"
    by (simp add: ex_iterEnv_rotate_switched_def isNewServer_spec_def)
  from handleEvents_fake_rotate_different_server
    [OF handleEvents_ex_run g r f u, of "[ex_iterEnv_xid]"]
  have "handleEvents ex_relayCfg ex_metaPos None (Inr [])
          [ex_iterEnv_rotate, ex_iterEnv_xid, ex_iterEnv_rotate_switched, ex_iterEnv_xid]
        = (Some (Some ErrRotateEventWithDifferentServerID), ex_relayActions)"
    by (simp only: append.simps)
  with handleEvents_ex_run g r f u d show ?thesis by blast
qed

theorem handleEvents_flushes_meta_before_write_witness:
  "handleEvents ex_relayCfg ex_metaPos None (Inr []) [ex_iterEnv_rotate, ex_iterEnv_xid]
     = (None, ex_relayActions)
   \<and> ex_relayActions =
       [ASaveMeta \<lparr>Name = ''mysql-bin.000001'', Pos = 4\<rparr> [] None, AFlushMeta None]
       @ AWriteEvent ex_fake_rotate (Inr (WResult False []))
       # [ANotify ex_fake_rotate, AWriteEvent ex_xid (Inr (WResult False [])), ANotify ex_xid,
          ASaveMeta \<lparr>Name = ''mysql-bin.000001'', Pos = 512\<rparr> ''3e11fa47:1-101'' None]
   \<and> (\<exists>pos gset rest.
         [ASaveMeta \<lparr>Name = ''mysql-bin.000001'', Pos = 4\<rparr> [] None, AFlushMeta None]
           = ASaveMeta pos gset None # AFlushMeta None # rest)"
proof -
  have a: "ex_relayActions =
       [ASaveMeta \<lparr>Name = ''mysql-bin.000001'', Pos = 4\<rparr> [] None, AFlushMeta None]
       @ AWriteEvent ex_fake_rotate (Inr (WResult False []))
       # [ANotify ex_fake_rotate, AWriteEvent ex_xid (Inr (WResult False [])), ANotify ex_xid,
          ASaveMeta \<lparr>Name = ''mysql-bin.000001'', Pos = 512\<rparr> ''3e11fa47:1-101'' None]"
    by (simp add: ex_relayActions_def)
  from handleEvents_flushes_meta_before_write [OF handleEvents_ex_run a] handleEvents_ex_run a
  show ?thesis by blast
qed

end
